theory Spec2Isabelle
  imports Main "HOL-Library.Sublist"
begin

section \<open>Go strings as byte lists\<close>

text \<open>
  A Go string is a sequence of bytes, here a \<^typ>\<open>string\<close> (a list of 8-bit characters).
  The functions of this section are the ones of Go's standard library that the program
  calls (packages strings, path and fmt); they carry the library's names.
\<close>

definition strings_HasPrefix :: "string \<Rightarrow> string \<Rightarrow> bool" where
  "strings_HasPrefix s p = prefix p s"

definition strings_HasSuffix :: "string \<Rightarrow> string \<Rightarrow> bool" where
  "strings_HasSuffix s p = suffix p s"

fun strings_Contains :: "string \<Rightarrow> string \<Rightarrow> bool" where
  "strings_Contains [] sub = (sub = [])"
| "strings_Contains (c # cs) sub = (prefix sub (c # cs) \<or> strings_Contains cs sub)"

definition strings_TrimSuffix :: "string \<Rightarrow> string \<Rightarrow> string" where
  "strings_TrimSuffix s suf = (if suffix suf s then take (length s - length suf) s else s)"

definition strings_TrimPrefix :: "string \<Rightarrow> string \<Rightarrow> string" where
  "strings_TrimPrefix s pre = (if prefix pre s then drop (length pre) s else s)"

text \<open>
  \<open>strings.Index\<close>: the byte offset of the first occurrence, \<open>-1\<close> when there is none.
\<close>

fun strings_Index :: "string \<Rightarrow> string \<Rightarrow> int" where
  "strings_Index [] sub = (if sub = [] then 0 else - 1)"
| "strings_Index (c # cs) sub =
     (if prefix sub (c # cs) then 0
      else (let i = strings_Index cs sub in if i < 0 then - 1 else i + 1))"

text \<open>
  \<open>strings.IndexAny\<close> for a set of ASCII characters: the offset of the first byte of
  \<open>s\<close> that occurs in \<open>chars\<close>, \<open>-1\<close> when there is none.
\<close>

fun strings_IndexAny :: "string \<Rightarrow> string \<Rightarrow> int" where
  "strings_IndexAny [] chars = - 1"
| "strings_IndexAny (c # cs) chars =
     (if c \<in> set chars then 0
      else (let i = strings_IndexAny cs chars in if i < 0 then - 1 else i + 1))"

text \<open>
  \<open>strings.ReplaceAll\<close> scans from the left and replaces non-overlapping occurrences.
  Every call of the program passes a non-empty literal for \<open>old\<close>; for an empty
  \<open>old\<close> (where Go inserts \<open>new\<close> around every code point) the model returns
  \<open>s\<close> and is not used.
\<close>

function strings_ReplaceAll :: "string \<Rightarrow> string \<Rightarrow> string \<Rightarrow> string" where
  "strings_ReplaceAll s old new =
     (if old = [] \<or> s = [] then s
      else if prefix old s then new @ strings_ReplaceAll (drop (length old) s) old new
      else hd s # strings_ReplaceAll (tl s) old new)"
  by pat_completeness auto
termination
  by (relation "measure (\<lambda>(s, old, new). length s)") auto

declare strings_ReplaceAll.simps [simp del]

text \<open>
  \<open>strings.Split\<close> with a one-byte separator: the pieces between the separators, at
  least one piece.
\<close>

fun strings_Split :: "string \<Rightarrow> char \<Rightarrow> string list" where
  "strings_Split [] sep = [[]]"
| "strings_Split (c # cs) sep =
     (if c = sep then [] # strings_Split cs sep
      else (case strings_Split cs sep of
              [] \<Rightarrow> [[c]]
            | piece # pieces \<Rightarrow> (c # piece) # pieces))"

text \<open>
  White space as \<open>unicode.IsSpace\<close> has it, each code point in its UTF-8 encoding:
  tab, line feed, vertical tab, form feed, carriage return, space, U+0085, U+00A0,
  U+1680, U+2000 to U+200A, U+2028, U+2029, U+202F, U+205F and U+3000.
\<close>

definition space_runes :: "string list" where
  "space_runes =
     [[CHR 0x09], [CHR 0x0A], [CHR 0x0B], [CHR 0x0C], [CHR 0x0D], [CHR 0x20],
      [CHR 0xC2, CHR 0x85], [CHR 0xC2, CHR 0xA0], [CHR 0xE1, CHR 0x9A, CHR 0x80],
      [CHR 0xE2, CHR 0x80, CHR 0x80], [CHR 0xE2, CHR 0x80, CHR 0x81],
      [CHR 0xE2, CHR 0x80, CHR 0x82], [CHR 0xE2, CHR 0x80, CHR 0x83],
      [CHR 0xE2, CHR 0x80, CHR 0x84], [CHR 0xE2, CHR 0x80, CHR 0x85],
      [CHR 0xE2, CHR 0x80, CHR 0x86], [CHR 0xE2, CHR 0x80, CHR 0x87],
      [CHR 0xE2, CHR 0x80, CHR 0x88], [CHR 0xE2, CHR 0x80, CHR 0x89],
      [CHR 0xE2, CHR 0x80, CHR 0x8A], [CHR 0xE2, CHR 0x80, CHR 0xA8],
      [CHR 0xE2, CHR 0x80, CHR 0xA9], [CHR 0xE2, CHR 0x80, CHR 0xAF],
      [CHR 0xE2, CHR 0x81, CHR 0x9F], [CHR 0xE3, CHR 0x80, CHR 0x80]]"

text \<open>
  Removing leading tokens of a list, as long as one of them is a prefix. The encodings
  above start with a lead byte or are ASCII, so matching the bytes at the front (and,
  reversed, at the back) is what decoding one code point at a time finds.
\<close>

function trimTokens :: "string list \<Rightarrow> string \<Rightarrow> string" where
  "trimTokens toks s =
     (case find (\<lambda>t. t \<noteq> [] \<and> prefix t s) toks of
        None \<Rightarrow> s
      | Some t \<Rightarrow> trimTokens toks (drop (length t) s))"
  by pat_completeness auto
termination
proof (relation "measure (\<lambda>(toks, s). length s)")
  show "wf (measure (\<lambda>(toks, s). length s))" by simp
next
  fix toks :: "string list" and s t :: string
  assume "find (\<lambda>t. t \<noteq> [] \<and> prefix t s) toks = Some t"
  then have "t \<noteq> []" and "prefix t s"
    by (auto simp: find_Some_iff)
  then have "s \<noteq> []" by auto
  with \<open>t \<noteq> []\<close> show "((toks, drop (length t) s), (toks, s)) \<in> measure (\<lambda>(toks, s). length s)"
    by simp
qed

declare trimTokens.simps [simp del]

definition strings_TrimSpace :: "string \<Rightarrow> string" where
  "strings_TrimSpace s =
     rev (trimTokens (map rev space_runes) (rev (trimTokens space_runes s)))"

text \<open>
  \<open>strings.ToLower\<close>. ASCII capitals move to their small letters. Two code points
  outside ASCII have an ASCII lower case: U+0130 (bytes C4 B0) becomes \<open>i\<close> and U+212A
  (bytes E2 84 AA) becomes \<open>k\<close>. Every other code point outside ASCII is mapped by the
  Unicode tables to a code point outside ASCII again; the model leaves those bytes as
  they are. The program only searches the result for ASCII words and suffixes, and on
  those tests the model agrees with the library.
\<close>

definition lowerByte :: "char \<Rightarrow> char" where
  "lowerByte c =
     (case map_of (zip ''ABCDEFGHIJKLMNOPQRSTUVWXYZ'' ''abcdefghijklmnopqrstuvwxyz'') c of
        Some l \<Rightarrow> l
      | None \<Rightarrow> c)"

fun strings_ToLower :: "string \<Rightarrow> string" where
  "strings_ToLower (c # d # e # cs) =
     (if c = CHR 0xC4 \<and> d = CHR 0xB0 then CHR ''i'' # strings_ToLower (e # cs)
      else if c = CHR 0xE2 \<and> d = CHR 0x84 \<and> e = CHR 0xAA then CHR ''k'' # strings_ToLower cs
      else lowerByte c # strings_ToLower (d # e # cs))"
| "strings_ToLower [c, d] =
     (if c = CHR 0xC4 \<and> d = CHR 0xB0 then [CHR ''i''] else [lowerByte c, lowerByte d])"
| "strings_ToLower [c] = [lowerByte c]"
| "strings_ToLower [] = []"

text \<open>
  \<open>path.Base\<close>: the last element of a slash-separated path, after removing trailing
  slashes; \<open>.\<close> for the empty path and \<open>/\<close> for a path of slashes only.
\<close>

definition path_Base :: "string \<Rightarrow> string" where
  "path_Base p =
     (if p = [] then ''.''
      else (let p1 = rev (dropWhile (\<lambda>c. c = CHR ''/'') (rev p));
                p2 = rev (takeWhile (\<lambda>c. c \<noteq> CHR ''/'') (rev p1))
            in if p2 = [] then ''/'' else p2))"

text \<open>
  \<open>fmt.Sprintf\<close> with the verbs \<open>%d\<close> and \<open>%02d\<close> on a number that is not negative:
  the decimal digits, for \<open>%02d\<close> padded with zeros to a width of two.
\<close>

definition digit_char :: "nat \<Rightarrow> char" where
  "digit_char d = ''0123456789'' ! d"

function fmt_d :: "nat \<Rightarrow> string" where
  "fmt_d n = (if n < 10 then [digit_char n] else fmt_d (n div 10) @ [digit_char (n mod 10)])"
  by pat_completeness auto
termination
  by (relation "measure (\<lambda>n. n)") auto

declare fmt_d.simps [simp del]

definition fmt_02d :: "nat \<Rightarrow> string" where
  "fmt_02d n = (let s = fmt_d n in replicate (2 - length s) (CHR ''0'') @ s)"

section \<open>internal/models\<close>

record namedEntity =
  Name :: string

record BookInfo =
  Title :: string
  Description :: string
  WebURL :: string
  Identifier :: string
  ISBN :: string
  Issued :: string
  Rights :: string
  Cover :: string
  Authors :: "namedEntity list"
  Publishers :: "namedEntity list"
  Subjects :: "namedEntity list"

record ChapterStylesheet =
  URL :: string

text \<open>
  The fields of \<open>Chapter\<close> that the pipeline reads or writes. \<open>Fragment\<close>, \<open>ID\<close>,
  \<open>Depth\<close> and \<open>Children\<close> are decoded from the index and never used afterwards.
  The field \<open>Title\<close> is called \<open>ChTitle\<close> here, \<open>BookInfo\<close> has a field of that
  name.
\<close>

record Chapter =
  ChTitle :: string
  Filename :: string
  Content :: string
  AssetBaseURL :: string
  Images :: "string list"
  Stylesheets :: "ChapterStylesheet list"
  SiteStyles :: "string list"

text \<open>\<open>Next\<close> is a pointer to a string: \<open>None\<close> is the null pointer.\<close>

record ChapterResponse =
  Count :: int
  Next :: "string option"
  Results :: "Chapter list"

section \<open>The libraries and the outside world\<close>

text \<open>
  What the program obtains from packages outside the repository and from the network and
  the disk is collected in one record, a parameter of the model.

  \<^item> \<open>url_Parse\<close> is \<open>net/url.Parse\<close>: \<open>None\<close> when it returns an error, otherwise
    the fields of the URL that the program reads.
  \<^item> \<open>url_ResolveReference base ref\<close> is the text of
    \<open>baseURL.ResolveReference(ref).String()\<close> for the parsed \<open>base\<close> and \<open>ref\<close>.
  \<^item> \<open>html_Document\<close> is what goquery and \<open>x/net/html\<close> find in a chapter's HTML
    (see \<open>DocView\<close> below); \<open>None\<close> when the document cannot be read.
  \<^item> \<open>http_Get\<close> is the answer of the server to a GET of a URL: \<open>None\<close> when the
    request itself fails. The server answers the same URL the same way during a run.
  \<^item> \<open>json_Chapters\<close> is \<open>json.Unmarshal\<close> into a \<open>ChapterResponse\<close>: \<open>None\<close>
    when the body is not valid.
  \<^item> \<open>write_fails\<close> and \<open>mkdir_fails\<close> tell for which paths \<open>os.WriteFile\<close> and
    \<open>os.MkdirAll\<close> return an error.
\<close>

record URL =
  Scheme :: string
  Host :: string
  Path :: string

record Response =
  StatusCode :: int
  Body :: string

text \<open>
  The view of a parsed chapter document that \<open>ParseChapter\<close> works with:
  \<^item> \<open>linkHrefs\<close>: the \<open>href\<close> values of the elements matching
    \<open>link[rel='stylesheet']\<close> that have an \<open>href\<close> attribute, in document order;
  \<^item> \<open>styleCSS\<close>: for each \<open>style\<close> element in document order that
    \<open>nodeToString\<close> renders without error, its rendering after the
    \<open>data-template\<close> step;
  \<^item> \<open>bookContent\<close>: the XHTML of the first \<open>div#sbo-rt-content\<close> after the
    \<open>image\<close> step, with its links rewritten by the function given; \<open>None\<close>
    when the document has no such element.
\<close>

record DocView =
  linkHrefs :: "string list"
  styleCSS :: "string list"
  bookContent :: "(string \<Rightarrow> string) \<Rightarrow> string option"

record World =
  url_Parse :: "string \<Rightarrow> URL option"
  url_ResolveReference :: "string \<Rightarrow> string \<Rightarrow> string"
  html_Document :: "string \<Rightarrow> DocView option"
  http_Get :: "string \<Rightarrow> Response option"
  json_Chapters :: "string \<Rightarrow> ChapterResponse option"
  write_fails :: "string \<Rightarrow> bool"
  mkdir_fails :: "string \<Rightarrow> bool"

text \<open>Every error value the modelled functions return, one constructor per return site.\<close>

datatype error =
    ErrUnableToParseHTML string
  | ErrBookContentMissing string
  | ErrDownloadChapter
  | ErrChapterStatus int string
  | ErrParseChapter error
  | ErrWriteChapter
  | ErrRetrieveChapters
  | ErrUnexpectedStatus int
  | ErrInvalidResponse
  | ErrNoChapters
  | ErrAuthCheckFailed
  | ErrAuthExpected200 int
  | ErrAuthExpired
  | ErrCreateDirectory string

section \<open>pkg/utils\<close>

definition ResolveURL :: "World \<Rightarrow> string \<Rightarrow> string \<Rightarrow> string" where
  "ResolveURL w base href =
     (if href = [] then []
      else if strings_HasPrefix href ''//'' then ''https:'' @ href
      else if strings_HasPrefix href ''http://'' \<or> strings_HasPrefix href ''https://'' then href
      else if base = [] then href
      else (case url_Parse w base of
              None \<Rightarrow> href
            | Some baseURL \<Rightarrow>
                (case url_Parse w href of
                   None \<Rightarrow> href
                 | Some ref \<Rightarrow> url_ResolveReference w base href)))"

definition IsAbsoluteURL :: "World \<Rightarrow> string \<Rightarrow> bool" where
  "IsAbsoluteURL w raw =
     (if raw = [] then False
      else (case url_Parse w raw of
              None \<Rightarrow> False
            | Some u \<Rightarrow> Scheme u \<noteq> [] \<and> Host u \<noteq> []))"

definition StripQueryFragment :: "string \<Rightarrow> string" where
  "StripQueryFragment link =
     (let idx = strings_IndexAny link ''?#'' in
      if idx \<ge> 0 then take (nat idx) link else link)"

text \<open>\<open>strings.Trim(name, "/")\<close>: slashes removed at both ends.\<close>

definition trimSlashes :: "string \<Rightarrow> string" where
  "trimSlashes s =
     rev (dropWhile (\<lambda>c. c = CHR ''/'') (rev (dropWhile (\<lambda>c. c = CHR ''/'') s)))"

definition FilenameFromURL :: "World \<Rightarrow> string \<Rightarrow> string" where
  "FilenameFromURL w raw =
     (if raw = [] then []
      else (case (case url_Parse w raw of
                    None \<Rightarrow> None
                  | Some parsed \<Rightarrow>
                      (let name = path_Base (Path parsed) in
                       if name \<noteq> [] \<and> name \<noteq> ''.'' \<and> name \<noteq> ''/'' then Some name else None)) of
              Some name \<Rightarrow> name
            | None \<Rightarrow> trimSlashes (path_Base (StripQueryFragment raw))))"

definition BaseName :: "string \<Rightarrow> string" where
  "BaseName link =
     (let clean = StripQueryFragment link; name = path_Base clean in
      if name = ''.'' \<or> name = ''/'' then [] else name)"

text \<open>
  The replacer of \<open>EscapeDirname\<close> maps single bytes to \<open>_\<close>: it works byte by byte.
\<close>

definition escapedChars :: "char list" where
  \<open>escapedChars =
     [CHR ''~'', CHR ''#'', CHR ''%'', CHR ''&'', CHR ''*'', CHR ''{'', CHR ''}'', CHR 0x5C,
      CHR ''<'', CHR ''>'', CHR ''?'', CHR ''/'', CHR 0x60, CHR 0x27, CHR 0x22,
      CHR ''|'', CHR ''+'', CHR '':'']\<close>

definition replacer_Replace :: "string \<Rightarrow> string" where
  "replacer_Replace s = map (\<lambda>c. if c \<in> set escapedChars then CHR ''_'' else c) s"

definition EscapeDirname :: "string \<Rightarrow> string" where
  "EscapeDirname name =
     (let idx = strings_Index name '':'';
          name' = (if idx > 15 then take (nat idx) name else name)
      in replacer_Replace name')"

section \<open>internal/html: the chapter parser\<close>

definition baseStyleCSS :: string where
  \<open>baseStyleCSS = ''body{margin:1em;background-color:transparent!important;}#sbo-rt-content *{text-indent:0pt!important;}#sbo-rt-content .bq{margin-right:1em!important;}''\<close>

definition kindleCSS :: string where
  \<open>kindleCSS = ''#sbo-rt-content *{word-wrap:break-word!important;word-break:break-word!important;}#sbo-rt-content table,#sbo-rt-content pre{overflow-x:unset!important;overflow:unset!important;overflow-y:unset!important;white-space:pre-wrap!important;}''\<close>

text \<open>
  \<open>baseHTMLTemplate\<close> has three \<open>%s\<close> verbs; the model is the function that
  \<open>fmt.Sprintf\<close> makes of it.
\<close>

definition baseHTMLTemplate :: "string \<Rightarrow> string \<Rightarrow> string \<Rightarrow> string" where
  \<open>baseHTMLTemplate css style body =
     ''<!DOCTYPE html>'' @ [CHR 0x0A] @
     ''<html lang="en" xml:lang="en" xmlns="http://www.w3.org/1999/xhtml" xmlns:xsi="http://www.w3.org/2001/XMLSchema-instance" xsi:schemaLocation="http://www.w3.org/2002/06/xhtml2/ http://www.w3.org/MarkUp/SCHEMA/xhtml2.xsd" xmlns:epub="http://www.idpf.org/2007/ops">'' @ [CHR 0x0A] @
     ''<head>'' @ [CHR 0x0A] @
     css @ [CHR 0x0A] @
     ''<style type="text/css">'' @ style @ ''</style></head>'' @ [CHR 0x0A] @
     ''<body>'' @ body @ ''</body>'' @ [CHR 0x0A] @
     ''</html>''\<close>

record Parser =
  bookURL :: string
  kindleMode :: bool
  baseHTMLStyle :: string
  cssIndex :: "string \<rightharpoonup> nat"
  cssList :: "string list"

definition NewParser :: "string \<Rightarrow> bool \<Rightarrow> Parser" where
  "NewParser url kindle =
     \<lparr>bookURL = url, kindleMode = kindle,
      baseHTMLStyle = (if \<not> kindle then baseStyleCSS @ kindleCSS else baseStyleCSS),
      cssIndex = Map.empty, cssList = []\<rparr>"

text \<open>
  \<open>ensureCSS\<close> changes the parser: the model returns the parser after the call and
  the index.
\<close>

definition ensureCSS :: "Parser \<Rightarrow> string \<Rightarrow> Parser \<times> nat" where
  "ensureCSS p url =
     (if url = [] then (p, 0)
      else (case cssIndex p url of
              Some idx \<Rightarrow> (p, idx)
            | None \<Rightarrow>
                (let idx = length (cssList p) in
                 (p\<lparr>cssIndex := (cssIndex p)(url \<mapsto> idx), cssList := cssList p @ [url]\<rparr>, idx))))"

definition isImageLink :: "string \<Rightarrow> bool" where
  "isImageLink raw =
     (let raw' = strings_ToLower raw in
      list_ex (\<lambda>ext. strings_HasSuffix raw' ext)
        [''.jpg'', ''.jpeg'', ''.png'', ''.gif'', ''.webp'', ''.svg''])"

definition linkReplace :: "World \<Rightarrow> string \<Rightarrow> string" where
  "linkReplace w link0 =
     (let link = strings_TrimSpace link0 in
      if link = [] \<or> strings_HasPrefix link ''mailto:'' then link
      else if \<not> IsAbsoluteURL w link then
        (let lower = strings_ToLower link in
         if strings_Contains lower ''cover'' \<or> strings_Contains lower ''images''
            \<or> strings_Contains lower ''graphics'' \<or> isImageLink link
         then (let name = BaseName link;
                   name' = (if name = [] then FilenameFromURL w link else name)
               in if name' = [] then link else ''Images/'' @ name')
         else strings_ReplaceAll link ''.html'' ''.xhtml'')
      else link)"

text \<open>
  The words of the specification's link-rewrite rule. \<open>lastSegment\<close> is the last
  path segment: the last of the non-empty pieces between the slashes of a path, empty
  when there is none. \<open>imageExtensions\<close> are the endings of an image link.
  \<open>baseElem\<close> is the element that \<open>path.Base\<close> computes for a path that is not
  empty, before it replaces an empty result by a slash.
\<close>

definition lastSegment :: "string \<Rightarrow> string" where
  "lastSegment p =
     (let segs = filter (\<lambda>seg. seg \<noteq> []) (strings_Split p (CHR ''/''))
      in if segs = [] then [] else last segs)"


definition baseElem :: "string \<Rightarrow> string" where
  "baseElem p = rev (takeWhile (\<lambda>c. c \<noteq> CHR ''/'')
                        (rev (rev (dropWhile (\<lambda>c. c = CHR ''/'') (rev p)))))"

text \<open>The \<open>link\<close> element that \<open>ParseChapter\<close> writes for a stylesheet index.\<close>

definition linkTag :: "nat \<Rightarrow> string" where
  \<open>linkTag idx =
     ''<link href="Styles/Style'' @ fmt_02d idx @ ''.css" rel="stylesheet" type="text/css" />''
       @ [CHR 0x0A]\<close>

text \<open>
  The two loops over the chapter's \<open>Stylesheets\<close> and \<open>SiteStyles\<close> (empty entries are
  skipped, the others resolved against \<open>base\<close>), and the loop over the \<open>link\<close>
  elements of the document (every \<open>href\<close> resolved against the book URL). Each
  returns the parser and the text appended to \<open>pageCSS\<close>.
\<close>

fun linkSheets :: "World \<Rightarrow> string \<Rightarrow> string list \<Rightarrow> Parser \<Rightarrow> string \<Rightarrow> Parser \<times> string" where
  "linkSheets w base [] p pageCSS = (p, pageCSS)"
| "linkSheets w base (sheet # sheets) p pageCSS =
     (if sheet = [] then linkSheets w base sheets p pageCSS
      else (let abs = ResolveURL w base sheet;
                (p', idx) = ensureCSS p abs
            in linkSheets w base sheets p' (pageCSS @ linkTag idx)))"

fun linkElements :: "World \<Rightarrow> string list \<Rightarrow> Parser \<Rightarrow> string \<Rightarrow> Parser \<times> string" where
  "linkElements w [] p pageCSS = (p, pageCSS)"
| "linkElements w (href # hrefs) p pageCSS =
     (let abs = ResolveURL w (bookURL p) href;
          (p', idx) = ensureCSS p abs
      in linkElements w hrefs p' (pageCSS @ linkTag idx))"

text \<open>
  \<open>ParseChapter\<close> changes the registry of the parser; the model returns the parser
  after the call next to the result. The parameter \<open>isFirst\<close> is not read by the
  code. \<open>renderXHTML\<close> returns no error on any node, so the branch for a failed
  serialisation is never taken and has no counterpart here.
\<close>

definition ParseChapter ::
  "World \<Rightarrow> Parser \<Rightarrow> Chapter \<Rightarrow> bool \<Rightarrow> Parser \<times> (error + string \<times> string)" where
  "ParseChapter w p chapter isFirst =
     (case html_Document w (Content chapter) of
        None \<Rightarrow> (p, Inl (ErrUnableToParseHTML (ChTitle chapter)))
      | Some doc \<Rightarrow>
          (let (p1, css1) =
                 (if Stylesheets chapter \<noteq> [] \<or> SiteStyles chapter \<noteq> [] then
                    (let (q, c) = linkSheets w (AssetBaseURL chapter)
                                    (map URL (Stylesheets chapter)) p []
                     in linkSheets w (AssetBaseURL chapter) (SiteStyles chapter) q c)
                  else (p, []));
               (p2, css2) = linkElements w (linkHrefs doc) p1 css1;
               pageCSS = css2 @ concat (map (\<lambda>css. css @ [CHR 0x0A]) (styleCSS doc))
           in case bookContent doc (linkReplace w) of
                None \<Rightarrow> (p2, Inl (ErrBookContentMissing (ChTitle chapter)))
              | Some xhtml \<Rightarrow>
                  (p2, Inr (pageCSS, baseHTMLTemplate pageCSS (baseHTMLStyle p2) xhtml))))"

text \<open>
  The stylesheet registry of one parser, described from outside. \<open>registerAll\<close> makes
  the calls of \<open>ensureCSS\<close> for a list of URLs and collects the indices returned.
  \<open>registeredURLs\<close> is the list of absolute URLs that \<open>ParseChapter\<close> registers for
  a chapter, in the order of the calls. \<open>styleIndex us u\<close> is the number of distinct
  non-empty URLs in \<open>us\<close> before the first occurrence of \<open>u\<close>: the index that the
  specification gives to \<open>u\<close> when the URLs \<open>us\<close> are registered in this order (the
  k-th distinct URL has k-1 distinct URLs before it); the empty URL is never
  registered and is answered with 0. \<open>registryFor p pre\<close> says that the parser \<open>p\<close>
  holds the registry that the registrations \<open>pre\<close> leave behind.
\<close>

fun registerAll :: "Parser \<Rightarrow> string list \<Rightarrow> Parser \<times> nat list" where
  "registerAll p [] = (p, [])"
| "registerAll p (u # us) =
     (let (p', idx) = ensureCSS p u;
          (p'', idxs) = registerAll p' us
      in (p'', idx # idxs))"

definition registeredURLs :: "World \<Rightarrow> string \<Rightarrow> Chapter \<Rightarrow> DocView \<Rightarrow> string list" where
  "registeredURLs w book ch doc =
     map (ResolveURL w (AssetBaseURL ch))
       (filter (\<lambda>sheet. sheet \<noteq> []) (map URL (Stylesheets ch) @ SiteStyles ch))
     @ map (ResolveURL w book) (linkHrefs doc)"

definition styleIndex :: "string list \<Rightarrow> string \<Rightarrow> nat" where
  "styleIndex us u =
     (if u = [] then 0
      else length (remdups (filter (\<lambda>v. v \<noteq> []) (takeWhile (\<lambda>v. v \<noteq> u) us))))"

definition registryFor :: "Parser \<Rightarrow> string list \<Rightarrow> bool" where
  "registryFor p pre \<longleftrightarrow>
     length (cssList p) = length (remdups (filter (\<lambda>v. v \<noteq> []) pre)) \<and>
     (\<forall>u. u \<noteq> [] \<longrightarrow> cssIndex p u = (if u \<in> set pre then Some (styleIndex pre u) else None))"

section \<open>internal/http: the client\<close>

definition safariBaseURL :: string where
  "safariBaseURL = ''https://learning.oreilly.com''"

definition profileURL :: string where
  "profileURL = safariBaseURL @ ''/profile/''"

text \<open>
  Two methods of resty's \<open>Response\<close>: \<open>IsSuccess\<close> holds for the status codes 200 to
  299, and \<open>String\<close> is the body with the white space at both ends removed.
\<close>

definition IsSuccess :: "Response \<Rightarrow> bool" where
  "IsSuccess resp = (StatusCode resp > 199 \<and> StatusCode resp < 300)"

definition Response_String :: "Response \<Rightarrow> string" where
  "Response_String resp = strings_TrimSpace (Body resp)"

definition expiredMarker :: string where
  \<open>expiredMarker = ''user_type":"Expired"''\<close>

text \<open>\<open>ensureAuthenticated\<close> returns an error or nil: \<open>None\<close> is nil.\<close>

definition ensureAuthenticated :: "World \<Rightarrow> error option" where
  "ensureAuthenticated w =
     (case http_Get w profileURL of
        None \<Rightarrow> Some ErrAuthCheckFailed
      | Some resp \<Rightarrow>
          (if StatusCode resp \<noteq> 200 then Some (ErrAuthExpected200 (StatusCode resp))
           else if strings_Contains (Response_String resp) expiredMarker then Some ErrAuthExpired
           else None))"

definition HandleJSONResponse :: "World \<Rightarrow> Response \<Rightarrow> error + ChapterResponse" where
  "HandleJSONResponse w resp =
     (if \<not> IsSuccess resp then Inl (ErrUnexpectedStatus (StatusCode resp))
      else (case json_Chapters w (Body resp) of
              None \<Rightarrow> Inl ErrInvalidResponse
            | Some payload \<Rightarrow> Inr payload))"

definition isCoverChapter :: "Chapter \<Rightarrow> bool" where
  "isCoverChapter chapter =
     (strings_Contains (strings_ToLower (Filename chapter)) ''cover'' \<or>
      strings_Contains (strings_ToLower (ChTitle chapter)) ''cover'')"

definition isRemainingChapter :: "Chapter \<Rightarrow> bool" where
  "isRemainingChapter chapter =
     (\<not> strings_Contains (strings_ToLower (Filename chapter)) ''cover'' \<and>
      \<not> strings_Contains (strings_ToLower (ChTitle chapter)) ''cover'')"

text \<open>
  The loop of \<open>GetBookChapters\<close> follows the \<open>next\<close> links for as long as the server
  hands them out, so it need not end: \<open>None\<close> is the run that never returns.
\<close>

partial_function (option) chaptersLoop ::
  "World \<Rightarrow> string \<Rightarrow> Chapter list \<Rightarrow> (error + Chapter list) option" where
  "chaptersLoop w pageURL all =
     (if pageURL = [] then Some (Inr all)
      else (case http_Get w pageURL of
              None \<Rightarrow> Some (Inl ErrRetrieveChapters)
            | Some resp \<Rightarrow>
                (case HandleJSONResponse w resp of
                   Inl err \<Rightarrow> Some (Inl err)
                 | Inr payload \<Rightarrow>
                     (if length (Results payload) = 0 then Some (Inl ErrNoChapters)
                      else chaptersLoop w
                             (case Next payload of
                                None \<Rightarrow> []
                              | Some next \<Rightarrow> if next \<noteq> [] then next else [])
                             ((all @ filter isCoverChapter (Results payload))
                                @ filter isRemainingChapter (Results payload))))))"

definition GetBookChapters :: "World \<Rightarrow> string \<Rightarrow> (error + Chapter list) option" where
  "GetBookChapters w bookID =
     (let apiURL = safariBaseURL @ ''/api/v1/book/'' @ bookID @ ''/'';
          pageURL = apiURL @ ''chapter/?page=1''
      in chaptersLoop w pageURL [])"

text \<open>
  The chapter index as the server holds it. \<open>pagePath w url pages url'\<close> says that,
  starting at \<open>url\<close>, the server answers with the pages \<open>pages\<close> one after the
  other, each request a success with a body that decodes to the page, each page's
  \<open>next\<close> link the URL of the following request, and that the \<open>next\<close> link of the last
  page is \<open>url'\<close> (empty for a null or empty link: the end of the index).
  \<open>firstPageURL\<close> is the URL of the first request, and \<open>coverFirst\<close> the order the
  specification gives to one page.
\<close>

definition nextPageURL :: "ChapterResponse \<Rightarrow> string" where
  "nextPageURL page = (case Next page of None \<Rightarrow> [] | Some next \<Rightarrow> next)"

fun pagePath :: "World \<Rightarrow> string \<Rightarrow> ChapterResponse list \<Rightarrow> string \<Rightarrow> bool" where
  "pagePath w url [] url' = (url = url')"
| "pagePath w url (page # pages) url' =
     (url \<noteq> [] \<and>
      (case http_Get w url of
         None \<Rightarrow> False
       | Some resp \<Rightarrow>
           IsSuccess resp \<and> json_Chapters w (Body resp) = Some page
           \<and> pagePath w (nextPageURL page) pages url'))"

definition firstPageURL :: "string \<Rightarrow> string" where
  "firstPageURL book = safariBaseURL @ ''/api/v1/book/'' @ book @ ''/chapter/?page=1''"

definition coverFirst :: "Chapter list \<Rightarrow> Chapter list" where
  "coverFirst chapters =
     filter isCoverChapter chapters @ filter (\<lambda>chapter. \<not> isCoverChapter chapter) chapters"

section \<open>internal/downloader\<close>

text \<open>
  \<open>filepath.Join\<close> on a system whose separator is the slash: the elements that are not
  empty, joined and cleaned. \<open>filepath.Clean\<close> drops empty elements and \<open>.\<close>, and
  resolves \<open>..\<close> against the element before it.
\<close>

fun strings_Join :: "string list \<Rightarrow> string \<Rightarrow> string" where
  "strings_Join [] sep = []"
| "strings_Join [e] sep = e"
| "strings_Join (e # es) sep = e @ sep @ strings_Join es sep"

fun cleanElems :: "bool \<Rightarrow> string list \<Rightarrow> string list \<Rightarrow> string list" where
  "cleanElems rooted out [] = rev out"
| "cleanElems rooted out (e # es) =
     (if e = [] \<or> e = ''.'' then cleanElems rooted out es
      else if e = ''..'' then
        (case out of
           [] \<Rightarrow> if rooted then cleanElems rooted [] es else cleanElems rooted [e] es
         | b # bs \<Rightarrow> if b = ''..'' then cleanElems rooted (e # out) es
                     else cleanElems rooted bs es)
      else cleanElems rooted (e # out) es)"

definition filepath_Clean :: "string \<Rightarrow> string" where
  "filepath_Clean p =
     (if p = [] then ''.''
      else (let rooted = (hd p = CHR ''/'');
                body = strings_Join (cleanElems rooted [] (strings_Split p (CHR ''/''))) ''/''
            in if rooted then ''/'' @ body else if body = [] then ''.'' else body))"

definition filepath_Join :: "string list \<Rightarrow> string" where
  "filepath_Join elems =
     (let es = filter (\<lambda>e. e \<noteq> []) elems in
      if es = [] then [] else filepath_Clean (strings_Join es ''/''))"

text \<open>
  The disk: the directories made so far and the contents of the files written so far.
  \<open>os.MkdirAll\<close> also makes the missing parents; only the directory asked for is
  recorded.
\<close>

record FS =
  dirs :: "string set"
  files :: "string \<rightharpoonup> string"

definition FileExists :: "FS \<Rightarrow> string \<Rightarrow> bool" where
  "FileExists fs path = (path \<in> dom (files fs) \<or> path \<in> dirs fs)"

definition WriteFile :: "FS \<Rightarrow> string \<Rightarrow> string \<Rightarrow> FS" where
  "WriteFile fs path content = fs\<lparr>files := (files fs)(path \<mapsto> content)\<rparr>"

text \<open>
  The fields of \<open>Downloader\<close>; its \<open>client\<close> is the \<open>World\<close> parameter. The field
  \<open>kindleMode\<close> is called \<open>dlKindleMode\<close> here, the parser has a field of that name.
\<close>

record Downloader =
  bookID :: string
  cookiesPath :: string
  booksDir :: string
  dlKindleMode :: bool
  siteURL :: string

text \<open>
  The name that \<open>createBookDirectory\<close> formats for the directory.
  \<open>strings.Split\<close> returns at least one piece, so taking the first one is safe.
\<close>

definition dirName :: "Downloader \<Rightarrow> BookInfo \<Rightarrow> string" where
  "dirName d bookInfo =
     (let title = EscapeDirname (Title bookInfo);
          title' = (if title = [] then bookID d else title);
          cleanTitle = hd (strings_Split title' (CHR '',''))
      in cleanTitle @ '' ('' @ bookID d @ '')'')"

fun mkdirAll :: "World \<Rightarrow> string list \<Rightarrow> FS \<Rightarrow> FS \<times> error option" where
  "mkdirAll w [] fs = (fs, None)"
| "mkdirAll w (dir # ds) fs =
     (if mkdir_fails w dir then (fs, Some (ErrCreateDirectory dir))
      else mkdirAll w ds (fs\<lparr>dirs := insert dir (dirs fs)\<rparr>))"

definition createBookDirectory :: "World \<Rightarrow> Downloader \<Rightarrow> BookInfo \<Rightarrow> FS \<Rightarrow> FS \<times> (error + string)" where
  "createBookDirectory w d bookInfo fs =
     (let bookPath = filepath_Join [booksDir d, dirName d bookInfo];
          ds = [bookPath,
                filepath_Join [bookPath, ''OEBPS''],
                filepath_Join [bookPath, ''OEBPS'', ''Styles''],
                filepath_Join [bookPath, ''OEBPS'', ''Images'']]
      in case mkdirAll w ds fs of
           (fs', Some err) \<Rightarrow> (fs', Inl err)
         | (fs', None) \<Rightarrow> (fs', Inr bookPath))"

definition resolveImageURL :: "World \<Rightarrow> Downloader \<Rightarrow> Chapter \<Rightarrow> string \<Rightarrow> string" where
  "resolveImageURL w d chapter img =
     (let apiV2 = strings_Contains (Content chapter) ''/api/v2/'' in
      if apiV2 then
        (let chapterBase = ''https://'' @ siteURL d @ ''/api/v2/epubs/urn:orm:book:''
                             @ bookID d @ ''/files''
         in strings_TrimSuffix chapterBase ''/'' @ ''/'' @ strings_TrimPrefix img ''/'')
      else ResolveURL w (AssetBaseURL chapter) img)"

definition downloadFile :: "World \<Rightarrow> string \<Rightarrow> string \<Rightarrow> FS \<Rightarrow> FS" where
  "downloadFile w url path fs =
     (if FileExists fs path then fs
      else (case http_Get w url of
              None \<Rightarrow> fs
            | Some resp \<Rightarrow>
                (if \<not> IsSuccess resp then fs
                 else if write_fails w path then fs
                 else WriteFile fs path (Body resp))))"

fun downloadImages :: "World \<Rightarrow> Downloader \<Rightarrow> Chapter \<Rightarrow> string \<Rightarrow> string list \<Rightarrow> FS \<Rightarrow> FS" where
  "downloadImages w d chapter imagesPath [] fs = fs"
| "downloadImages w d chapter imagesPath (imgURL # imgs) fs =
     (let url = resolveImageURL w d chapter imgURL in
      if url = [] then downloadImages w d chapter imagesPath imgs fs
      else (let filename = FilenameFromURL w url in
            if filename = [] then downloadImages w d chapter imagesPath imgs fs
            else downloadImages w d chapter imagesPath imgs
                   (downloadFile w url (filepath_Join [imagesPath, filename]) fs)))"

definition downloadAssets :: "World \<Rightarrow> Downloader \<Rightarrow> Chapter \<Rightarrow> string \<Rightarrow> FS \<Rightarrow> FS" where
  "downloadAssets w d chapter basePath fs =
     (let imagesPath = filepath_Join [basePath, ''OEBPS'', ''Images'']
      in downloadImages w d chapter imagesPath (Images chapter) fs)"

text \<open>
  \<open>downloadChapter\<close> changes the chapter it is given (its content and file name) and
  the disk, and returns an error or nil.
\<close>

definition downloadChapter ::
  "World \<Rightarrow> Downloader \<Rightarrow> string \<Rightarrow> Chapter \<Rightarrow> bool \<Rightarrow> Parser \<Rightarrow> string \<Rightarrow> FS
     \<Rightarrow> Chapter \<times> FS \<times> error option" where
  "downloadChapter w d oebpsPath chapter isFirst parser bookPath fs =
     (case http_Get w (Content chapter) of
        None \<Rightarrow> (chapter, fs, Some ErrDownloadChapter)
      | Some resp \<Rightarrow>
          (if \<not> IsSuccess resp
           then (chapter, fs, Some (ErrChapterStatus (StatusCode resp) (ChTitle chapter)))
           else (let chapter1 = chapter\<lparr>Content := Body resp\<rparr> in
                 case snd (ParseChapter w parser chapter1 isFirst) of
                   Inl err \<Rightarrow> (chapter1, fs, Some (ErrParseChapter err))
                 | Inr (css, pageHTML) \<Rightarrow>
                     (let filename = strings_ReplaceAll (Filename chapter1) ''.html'' ''.xhtml'';
                          chapter2 = chapter1\<lparr>Filename := filename\<rparr>;
                          outputPath = filepath_Join [oebpsPath, filename]
                      in if write_fails w outputPath then (chapter2, fs, Some ErrWriteChapter)
                         else (chapter2,
                               downloadAssets w d chapter2 bookPath
                                 (WriteFile fs outputPath pageHTML),
                               None)))))"

text \<open>
  \<open>downloadChapters\<close> starts one goroutine per chapter, at most five of them past the
  semaphore at a time. Each goroutine makes a parser of its own, so the only state the
  workers share is the disk, the slice of chapters (each worker its own element) and
  \<open>firstError\<close>. The model runs the workers one after the other in the order
  \<open>sched\<close>, a list of the chapter indices: the order in which the scheduler lets
  them through. Positions outside the slice start no worker.
\<close>

fun runWorkers ::
  "World \<Rightarrow> Downloader \<Rightarrow> string \<Rightarrow> nat list \<Rightarrow> Chapter list \<times> FS \<times> error option
     \<Rightarrow> Chapter list \<times> FS \<times> error option" where
  "runWorkers w d bookPath [] st = st"
| "runWorkers w d bookPath (i # sched) (chapters, fs, firstError) =
     (if i < length chapters then
        (let oebpsPath = filepath_Join [bookPath, ''OEBPS''];
             parser = NewParser (''https://'' @ siteURL d) (dlKindleMode d);
             (chapter', fs', err) =
                downloadChapter w d oebpsPath (chapters ! i) (i = 0) parser bookPath fs
         in runWorkers w d bookPath sched
              (chapters[i := chapter'], fs',
               (if err \<noteq> None \<and> firstError = None then err else firstError)))
      else runWorkers w d bookPath sched (chapters, fs, firstError))"

definition downloadChapters ::
  "World \<Rightarrow> Downloader \<Rightarrow> string \<Rightarrow> Chapter list \<Rightarrow> nat list \<Rightarrow> FS
     \<Rightarrow> Chapter list \<times> FS \<times> error option" where
  "downloadChapters w d bookPath chapters sched fs =
     runWorkers w d bookPath sched (chapters, fs, None)"

text \<open>
  The file to which \<open>downloadChapter\<close> writes the page of a chapter.
\<close>

definition outputPath :: "string \<Rightarrow> Chapter \<Rightarrow> string" where
  "outputPath bookPath ch =
     filepath_Join [filepath_Join [bookPath, ''OEBPS''],
                    strings_ReplaceAll (Filename ch) ''.html'' ''.xhtml'']"

text \<open>
  The error with which the worker of chapter \<open>i\<close> ends, \<open>None\<close> when it ends
  without one. It is read off \<open>downloadChapter\<close> on an empty disk; the disk has no
  part in it.
\<close>

definition workerError :: "World \<Rightarrow> Downloader \<Rightarrow> string \<Rightarrow> nat \<Rightarrow> Chapter \<Rightarrow> error option" where
  "workerError w d bookPath i ch =
     snd (snd (downloadChapter w d (filepath_Join [bookPath, ''OEBPS'']) ch (i = 0)
                 (NewParser (''https://'' @ siteURL d) (dlKindleMode d)) bookPath
                 \<lparr>dirs = {}, files = Map.empty\<rparr>))"

definition sizeVariants :: "string list" where
  "sizeVariants =
     [''1200w'', ''800w'', ''600w'', ''500w'', ''400w'', ''200w'',
      ''large'', ''medium'', ''small'', ''thumb'']"

fun replaceFirstSize :: "string \<Rightarrow> string list \<Rightarrow> string list option" where
  "replaceFirstSize coverURL [] = None"
| "replaceFirstSize coverURL (oldSize # sizes) =
     (if strings_Contains coverURL oldSize
      then Some [strings_ReplaceAll coverURL oldSize ''600w'', coverURL]
      else replaceFirstSize coverURL sizes)"

definition generateCoverURLVariants :: "string \<Rightarrow> string list" where
  "generateCoverURLVariants coverURL =
     (case replaceFirstSize coverURL sizeVariants of
        Some variants \<Rightarrow> variants
      | None \<Rightarrow>
          (let baseURL = strings_TrimSuffix coverURL ''/''
           in [baseURL @ ''/600w/'', coverURL]))"

text \<open>
  The size tokens as the specification lists them, \<open>600w-proxy\<close> among them; the table
  \<open>sizeVariants\<close> of the code does not have that entry.
\<close>

definition claimedSizeTokens :: "string list" where
  "claimedSizeTokens =
     [''1200w'', ''800w'', ''600w'', ''600w-proxy'', ''500w'', ''400w'', ''200w'',
      ''large'', ''medium'', ''small'', ''thumb'']"

section \<open>Sample inputs\<close>

text \<open>
  Concrete servers, chapters and books on which the theorems below are evaluated. The
  world \<open>quietWorld\<close> answers no request and reads no document; the samples change the
  fields they need.
\<close>

definition quietWorld :: World where
  "quietWorld =
     \<lparr>url_Parse = (\<lambda>raw. None), url_ResolveReference = (\<lambda>base ref. ref),
      html_Document = (\<lambda>content. None), http_Get = (\<lambda>url. None),
      json_Chapters = (\<lambda>body. None), write_fails = (\<lambda>path. False),
      mkdir_fails = (\<lambda>path. False)\<rparr>"


definition noContentDoc :: DocView where
  "noContentDoc = \<lparr>linkHrefs = [], styleCSS = [], bookContent = (\<lambda>repl. None)\<rparr>"




text \<open>A server that answers the profile URL with the given status and body.\<close>

definition profileWorld :: "int \<Rightarrow> string \<Rightarrow> World" where
  "profileWorld status body =
     quietWorld\<lparr>http_Get := (\<lambda>url. if url = profileURL
                                     then Some \<lparr>StatusCode = status, Body = body\<rparr>
                                     else None)\<rparr>"

definition expiredBody :: string where
  \<open>expiredBody = ''{"user_type":"Expired"}''\<close>

text \<open>
  A chapter index of two pages for the book \<open>42\<close>; the bodies \<open>1\<close> and \<open>2\<close> stand
  for the JSON of the two pages.
\<close>

definition mkChapter :: "string \<Rightarrow> string \<Rightarrow> Chapter" where
  "mkChapter title filename =
     \<lparr>ChTitle = title, Filename = filename, Content = ''https://x.example/'' @ filename,
      AssetBaseURL = ''https://x.example/book/'', Images = [], Stylesheets = [], SiteStyles = []\<rparr>"

definition page2URL :: string where
  "page2URL = ''https://learning.oreilly.com/api/v1/book/42/chapter/?page=2''"

definition indexWorld :: "ChapterResponse \<Rightarrow> ChapterResponse \<Rightarrow> World" where
  "indexWorld page1 page2 =
     quietWorld\<lparr>http_Get := (\<lambda>url. if url = firstPageURL ''42'' then Some \<lparr>StatusCode = 200, Body = ''1''\<rparr>
                                     else if url = page2URL then Some \<lparr>StatusCode = 200, Body = ''2''\<rparr>
                                     else None),
                 json_Chapters := (\<lambda>body. if body = ''1'' then Some page1
                                          else if body = ''2'' then Some page2 else None)\<rparr>"

definition pageOne :: ChapterResponse where
  "pageOne = \<lparr>Count = 4, Next = Some page2URL,
              Results = [mkChapter ''A'' ''a.html'', mkChapter ''Cover'' ''b.html'']\<rparr>"

definition pageTwo :: ChapterResponse where
  "pageTwo = \<lparr>Count = 4, Next = None,
              Results = [mkChapter ''C'' ''cover2.html'', mkChapter ''D'' ''d.html'']\<rparr>"

definition emptyPage :: ChapterResponse where
  "emptyPage = \<lparr>Count = 4, Next = None, Results = []\<rparr>"

text \<open>A downloader for the book \<open>42\<close>, a book whose title has a comma, an empty disk.\<close>

definition commaBook :: BookInfo where
  "commaBook =
     \<lparr>Title = ''Go, Second Edition'', Description = [], WebURL = [], Identifier = [], ISBN = [],
      Issued = [], Rights = [], Cover = [], Authors = [], Publishers = [], Subjects = []\<rparr>"

definition sampleDownloader :: Downloader where
  "sampleDownloader =
     \<lparr>bookID = ''42'', cookiesPath = ''cookies.json'', booksDir = ''Books'',
      dlKindleMode = False, siteURL = ''learning.oreilly.com''\<rparr>"

definition emptyFS :: FS where
  "emptyFS = \<lparr>dirs = {}, files = Map.empty\<rparr>"

text \<open>
  A server with three chapters, two stylesheets and one image. The HTML of a chapter is
  \<open>bodyOf\<close> of a word: the content element with one paragraph. Such a body has no
  \<open>link\<close>, \<open>style\<close> or \<open>image\<close> element and no link to rewrite, so the document
  read from it, \<open>docOf\<close>, has the body itself as its content; any other string is
  read as a document without the content element. \<open>chapterA\<close>, \<open>chapterB\<close> and
  \<open>chapterS4\<close> are chapters as the index delivers them, their content still the URL
  to fetch; \<open>chapterS4\<close> names the stylesheets A, B, A, C. \<open>chapterDup\<close> is the
  second chapter under the file name of the first, and \<open>pageOf\<close> the page of a chapter
  with one stylesheet when Kindle mode is off.
\<close>

definition bodyOf :: "string \<Rightarrow> string" where
  \<open>bodyOf word = ''<div id="sbo-rt-content"><p>'' @ word @ ''</p></div>''\<close>

definition docOf :: "string \<Rightarrow> DocView" where
  "docOf content = \<lparr>linkHrefs = [], styleCSS = [], bookContent = (\<lambda>repl. Some content)\<rparr>"

definition chapterA :: Chapter where
  "chapterA =
     \<lparr>ChTitle = ''One'', Filename = ''ch01.html'', Content = ''https://x.example/ch01'',
      AssetBaseURL = ''https://x.example/book/'', Images = [''https://x.example/img/f.png''],
      Stylesheets = [\<lparr>URL = ''https://x.example/a.css''\<rparr>], SiteStyles = []\<rparr>"

definition bookWorld :: World where
  "bookWorld =
     quietWorld\<lparr>
       url_Parse := (\<lambda>raw. if raw = ''https://x.example/img/f.png''
                           then Some \<lparr>Scheme = ''https'', Host = ''x.example'', Path = ''/img/f.png''\<rparr>
                           else None),
       html_Document := (\<lambda>content.
          if content = bodyOf ''one'' \<or> content = bodyOf ''two'' \<or> content = bodyOf ''three''
          then Some (docOf content) else Some noContentDoc),
       http_Get := (\<lambda>url.
          if url = ''https://x.example/ch01'' then Some \<lparr>StatusCode = 200, Body = bodyOf ''one''\<rparr>
          else if url = ''https://x.example/ch02'' then Some \<lparr>StatusCode = 200, Body = bodyOf ''two''\<rparr>
          else if url = ''https://x.example/ch03'' then Some \<lparr>StatusCode = 200, Body = bodyOf ''three''\<rparr>
          else if url = ''https://x.example/a.css'' then Some \<lparr>StatusCode = 200, Body = ''p{}''\<rparr>
          else if url = ''https://x.example/b.css'' then Some \<lparr>StatusCode = 200, Body = ''a{}''\<rparr>
          else if url = ''https://x.example/img/f.png'' then Some \<lparr>StatusCode = 200, Body = ''PNG''\<rparr>
          else None)\<rparr>"

definition chapterB :: Chapter where
  "chapterB =
     \<lparr>ChTitle = ''Two'', Filename = ''ch02.html'', Content = ''https://x.example/ch02'',
      AssetBaseURL = ''https://x.example/book/'', Images = [],
      Stylesheets = [\<lparr>URL = ''https://x.example/b.css''\<rparr>], SiteStyles = []\<rparr>"

definition pageOf :: "string \<Rightarrow> string" where
  "pageOf word = baseHTMLTemplate (linkTag 0) (baseStyleCSS @ kindleCSS) (bodyOf word)"

definition chapterDup :: Chapter where
  "chapterDup = chapterB\<lparr>Filename := ''ch01.html''\<rparr>"

definition chapterS4 :: Chapter where
  "chapterS4 =
     \<lparr>ChTitle = ''Styles'', Filename = ''ch03.html'', Content = ''https://x.example/ch03'',
      AssetBaseURL = ''https://x.example/book/'', Images = [],
      Stylesheets = [\<lparr>URL = ''https://x.example/a.css''\<rparr>, \<lparr>URL = ''https://x.example/b.css''\<rparr>],
      SiteStyles = [''https://x.example/a.css'', ''https://x.example/c.css'']\<rparr>"


section \<open>Properties\<close>

subsection \<open>Substrings and trimming\<close>

lemma strings_Contains_sublist: "strings_Contains s sub \<longleftrightarrow> sublist sub s"
  by (induction s) (simp_all add: sublist_Cons_right)

lemma sublist_drop_token:
  assumes "prefix t s" and "m \<noteq> []" and "hd m \<notin> set t"
  shows "sublist m (drop (length t) s) \<longleftrightarrow> sublist m s"
proof -
  from assms(1) obtain s' where s: "s = t @ s'" by (auto simp: prefix_def)
  have no_t: "\<not> sublist m t"
  proof
    assume "sublist m t"
    then have "set m \<subseteq> set t" by (auto simp: sublist_def)
    with assms(2,3) show False by (cases m) auto
  qed
  have "sublist m s' " if "m = m1 @ m2" "suffix m1 t" "prefix m2 s'" for m1 m2
  proof (cases m1)
    case Nil
    with that show ?thesis by (auto simp: prefix_def sublist_def intro: exI [of _ "[]"])
  next
    case (Cons a as)
    with that have "hd m \<in> set t" by (auto simp: suffix_def)
    with assms(3) show ?thesis by simp
  qed
  with no_t show ?thesis
    by (auto simp: s sublist_append)
qed

lemma trimTokens_sublist:
  "m \<noteq> [] \<Longrightarrow> \<forall>t\<in>set toks. hd m \<notin> set t \<Longrightarrow>
     sublist m (trimTokens toks s) \<longleftrightarrow> sublist m s"
proof (induction toks s rule: trimTokens.induct)
  case (1 toks s)
  show ?case
  proof (cases "find (\<lambda>t. t \<noteq> [] \<and> prefix t s) toks")
    case None
    then show ?thesis by (simp add: trimTokens.simps)
  next
    case (Some t)
    then have "t \<in> set toks" and "prefix t s"
      by (auto simp: find_Some_iff)
    with "1.prems" have step: "sublist m (drop (length t) s) \<longleftrightarrow> sublist m s"
      by (intro sublist_drop_token) auto
    have "trimTokens toks s = trimTokens toks (drop (length t) s)"
      using Some by (subst trimTokens.simps) simp
    with "1.IH" [OF Some "1.prems"] step show ?thesis
      by simp
  qed
qed

lemma TrimSpace_sublist:
  assumes "m \<noteq> []" and "\<forall>t\<in>set space_runes. hd m \<notin> set t \<and> last m \<notin> set t"
  shows "sublist m (strings_TrimSpace s) \<longleftrightarrow> sublist m s"
proof -
  have "sublist m (strings_TrimSpace s)
        \<longleftrightarrow> sublist (rev m) (trimTokens (map rev space_runes) (rev (trimTokens space_runes s)))"
    by (simp add: strings_TrimSpace_def sublist_rev_left)
  also have "\<dots> \<longleftrightarrow> sublist (rev m) (rev (trimTokens space_runes s))"
    using assms by (intro trimTokens_sublist) (auto simp: hd_rev)
  also have "\<dots> \<longleftrightarrow> sublist m (trimTokens space_runes s)"
    by simp
  also have "\<dots> \<longleftrightarrow> sublist m s"
    using assms by (intro trimTokens_sublist) auto
  finally show ?thesis .
qed

text \<open>
  The marker starts with a letter and ends with a quotation mark, so trimming the body
  cannot remove or create an occurrence of it.
\<close>

lemma marker_in_String:
  "strings_Contains (Response_String resp) expiredMarker
   \<longleftrightarrow> strings_Contains (Body resp) expiredMarker"
  unfolding strings_Contains_sublist Response_String_def
  by (rule TrimSpace_sublist) (simp_all add: expiredMarker_def space_runes_def)

subsection \<open>The parser's fields\<close>

text \<open>Registering stylesheets changes neither the style nor the book URL.\<close>

lemma ensureCSS_style [simp]: "baseHTMLStyle (fst (ensureCSS p u)) = baseHTMLStyle p"
  and ensureCSS_bookURL [simp]: "bookURL (fst (ensureCSS p u)) = bookURL p"
  by (simp_all add: ensureCSS_def Let_def split: option.splits)

lemma linkSheets_fields:
  "baseHTMLStyle (fst (linkSheets w base sheets p acc)) = baseHTMLStyle p \<and>
   bookURL (fst (linkSheets w base sheets p acc)) = bookURL p"
proof (induction sheets arbitrary: p acc)
  case Nil
  show ?case by simp
next
  case (Cons s sheets)
  show ?case
  proof (cases "s = []")
    case True
    with Cons show ?thesis by simp
  next
    case False
    obtain p' idx where e: "ensureCSS p (ResolveURL w base s) = (p', idx)"
      by (cases "ensureCSS p (ResolveURL w base s)")
    have "baseHTMLStyle p' = baseHTMLStyle p" "bookURL p' = bookURL p"
      using ensureCSS_style [of p "ResolveURL w base s"]
        ensureCSS_bookURL [of p "ResolveURL w base s"] e
      by simp_all
    with Cons [of p' "acc @ linkTag idx"] False e show ?thesis by simp
  qed
qed

lemma linkElements_fields:
  "baseHTMLStyle (fst (linkElements w hrefs p acc)) = baseHTMLStyle p \<and>
   bookURL (fst (linkElements w hrefs p acc)) = bookURL p"
proof (induction hrefs arbitrary: p acc)
  case Nil
  show ?case by simp
next
  case (Cons h hrefs)
  obtain p' idx where e: "ensureCSS p (ResolveURL w (bookURL p) h) = (p', idx)"
    by (cases "ensureCSS p (ResolveURL w (bookURL p) h)")
  have "baseHTMLStyle p' = baseHTMLStyle p" "bookURL p' = bookURL p"
    using ensureCSS_style [of p "ResolveURL w (bookURL p) h"]
      ensureCSS_bookURL [of p "ResolveURL w (bookURL p) h"] e
    by simp_all
  with Cons [of p' "acc @ linkTag idx"] e show ?case by simp
qed

lemma linkSheets_style:
  "linkSheets w base sheets p acc = (p', c) \<Longrightarrow> baseHTMLStyle p' = baseHTMLStyle p"
  using linkSheets_fields [of w base sheets p acc] by simp

lemma linkElements_style:
  "linkElements w hrefs p acc = (p', c) \<Longrightarrow> baseHTMLStyle p' = baseHTMLStyle p"
  using linkElements_fields [of w hrefs p acc] by simp

lemma ParseChapter_style:
  "baseHTMLStyle (fst (ParseChapter w p chapter isFirst)) = baseHTMLStyle p"
  unfolding ParseChapter_def
  by (auto simp: Let_def split: option.splits prod.splits
      dest!: linkSheets_style linkElements_style)



subsection \<open>C9: the style block and Kindle mode\<close>



subsection \<open>C5: the session check\<close>

text \<open>
  Claim C5 says that the session check fails exactly for a status outside 200 to 299 or
  a body with the marker \<open>user_type":"Expired"\<close>. The code compares the status with
  200: a response with status 204 and an empty body is a 2xx response without the
  marker, and the check fails on it.
\<close>

theorem session_check_2xx_counterexample:
  "http_Get (profileWorld 204 []) profileURL = Some \<lparr>StatusCode = 204, Body = []\<rparr>
   \<and> IsSuccess \<lparr>StatusCode = 204, Body = []\<rparr>
   \<and> \<not> strings_Contains (Body \<lparr>StatusCode = 204, Body = []\<rparr>) expiredMarker
   \<and> ensureAuthenticated (profileWorld 204 []) = Some (ErrAuthExpected200 204)"
  by (simp add: profileWorld_def quietWorld_def IsSuccess_def expiredMarker_def
      ensureAuthenticated_def)

text \<open>
  Claim C5 as amended. When the profile fetch has returned a response, the session check
  fails if and only if the status is not 200 or the body contains the marker.
\<close>

theorem session_check_200:
  assumes "http_Get w profileURL = Some resp"
  shows "(ensureAuthenticated w \<noteq> None)
         = (StatusCode resp \<noteq> 200 \<or> strings_Contains (Body resp) expiredMarker)"
  using assms by (simp add: ensureAuthenticated_def marker_in_String)

theorem session_check_200_witness:
  "http_Get (profileWorld 200 expiredBody) profileURL
     = Some \<lparr>StatusCode = 200, Body = expiredBody\<rparr>
   \<and> strings_Contains expiredBody expiredMarker
   \<and> ensureAuthenticated (profileWorld 200 expiredBody) \<noteq> None"
proof -
  have get: "http_Get (profileWorld 200 expiredBody) profileURL
               = Some \<lparr>StatusCode = 200, Body = expiredBody\<rparr>"
    by (simp add: profileWorld_def quietWorld_def)
  have marker: "strings_Contains expiredBody expiredMarker"
    by (simp add: expiredBody_def expiredMarker_def)
  from session_check_200 [OF get] marker get show ?thesis
    by simp
qed

subsection \<open>C6: the cover URL variants\<close>

lemma replaceFirstSize_find:
  "replaceFirstSize url toks =
     map_option (\<lambda>tok. [strings_ReplaceAll url tok ''600w'', url])
       (find (\<lambda>tok. strings_Contains url tok) toks)"
  by (induction toks) simp_all

lemma contains_proxy: "strings_Contains url ''600w-proxy'' \<Longrightarrow> strings_Contains url ''600w''"
proof -
  assume "strings_Contains url ''600w-proxy''"
  then obtain ps ss where "url = ps @ ''600w-proxy'' @ ss"
    by (auto simp: strings_Contains_sublist sublist_def)
  then have "url = ps @ ''600w'' @ (''-proxy'' @ ss)" by simp
  then show ?thesis
    unfolding strings_Contains_sublist sublist_def by blast
qed

lemma find_claimed:
  "find (\<lambda>tok. strings_Contains url tok) claimedSizeTokens
   = find (\<lambda>tok. strings_Contains url tok) sizeVariants"
  using contains_proxy [of url] by (auto simp: claimedSizeTokens_def sizeVariants_def)

text \<open>
  Claim C6 says that a URL with none of the size tokens yields the URL followed by
  \<open>/600w/\<close>, then the URL. The code first removes one trailing slash: for
  \<open>https://cdn/x/\<close> the first candidate is \<open>https://cdn/x/600w/\<close>, not
  \<open>https://cdn/x//600w/\<close>.
\<close>

theorem cover_variants_slash_counterexample:
  "list_all (\<lambda>tok. \<not> strings_Contains ''https://cdn/x/'' tok) claimedSizeTokens
   \<and> generateCoverURLVariants ''https://cdn/x/'' = [''https://cdn/x/600w/'', ''https://cdn/x/'']
   \<and> generateCoverURLVariants ''https://cdn/x/'' \<noteq> [''https://cdn/x/'' @ ''/600w/'', ''https://cdn/x/'']"
  by (simp add: claimedSizeTokens_def generateCoverURLVariants_def sizeVariants_def
      strings_TrimSuffix_def suffix_to_prefix)

text \<open>
  Claim C6 as amended. The function yields two candidates, the original URL second. When
  the URL contains one of the tokens of the specification's list, the first candidate
  is the URL with every occurrence of the first such token, in the order of the list,
  replaced by \<open>600w\<close>; the entry \<open>600w-proxy\<close> changes nothing, a URL that contains it
  contains \<open>600w\<close>, the entry before it. Otherwise the first candidate is the URL
  without one trailing slash, followed by \<open>/600w/\<close>.
\<close>

theorem cover_variants:
  "generateCoverURLVariants url =
     (case find (\<lambda>tok. strings_Contains url tok) claimedSizeTokens of
        Some tok \<Rightarrow> [strings_ReplaceAll url tok ''600w'', url]
      | None \<Rightarrow> [strings_TrimSuffix url ''/'' @ ''/600w/'', url])"
  by (simp add: generateCoverURLVariants_def replaceFirstSize_find find_claimed
      split: option.splits)

theorem cover_variants_witness:
  "generateCoverURLVariants ''https://cdn/x/200w/cover.jpg''
     = [''https://cdn/x/600w/cover.jpg'', ''https://cdn/x/200w/cover.jpg'']"
  using cover_variants [of "''https://cdn/x/200w/cover.jpg''"]
  by (simp add: claimedSizeTokens_def strings_ReplaceAll.simps)

subsection \<open>The loop of GetBookChapters along the pages of the index\<close>

lemma isRemaining_not_cover: "isRemainingChapter = (\<lambda>chapter. \<not> isCoverChapter chapter)"
  by (auto simp: isRemainingChapter_def isCoverChapter_def fun_eq_iff)

lemma chaptersLoop_step:
  assumes "url \<noteq> []" and "http_Get w url = Some resp" and "IsSuccess resp"
    and "json_Chapters w (Body resp) = Some page"
  shows "chaptersLoop w url all =
           (if Results page = [] then Some (Inl ErrNoChapters)
            else chaptersLoop w (nextPageURL page) (all @ coverFirst (Results page)))"
proof -
  have nxt: "(case Next page of None \<Rightarrow> [] | Some next \<Rightarrow> if next \<noteq> [] then next else [])
              = nextPageURL page"
    by (simp add: nextPageURL_def split: option.splits)
  show ?thesis
    using assms
    by (subst chaptersLoop.simps)
      (simp add: HandleJSONResponse_def nxt coverFirst_def isRemaining_not_cover)
qed

lemma chaptersLoop_path:
  "pagePath w url pages url' \<Longrightarrow> \<forall>page\<in>set pages. Results page \<noteq> [] \<Longrightarrow>
     chaptersLoop w url all
       = chaptersLoop w url' (all @ concat (map (\<lambda>page. coverFirst (Results page)) pages))"
proof (induction pages arbitrary: url all)
  case Nil
  then show ?case by simp
next
  case (Cons page pages)
  from Cons.prems(1) obtain resp where
    url: "url \<noteq> []" and get: "http_Get w url = Some resp" and ok: "IsSuccess resp"
    and js: "json_Chapters w (Body resp) = Some page"
    and rest: "pagePath w (nextPageURL page) pages url'"
    by (auto split: option.splits)
  from Cons.prems(2) have ne: "Results page \<noteq> []" and all: "\<forall>page\<in>set pages. Results page \<noteq> []"
    by simp_all
  have "chaptersLoop w url all
          = chaptersLoop w (nextPageURL page) (all @ coverFirst (Results page))"
    using chaptersLoop_step [OF url get ok js] ne by simp
  also have "\<dots> = chaptersLoop w url'
      ((all @ coverFirst (Results page)) @ concat (map (\<lambda>page. coverFirst (Results page)) pages))"
    by (rule Cons.IH [OF rest all])
  finally show ?case by simp
qed

subsection \<open>C4: cover chapters first, page by page\<close>

text \<open>
  Claim C4. When the server holds the index as the pages \<open>pages\<close>, none of them empty,
  \<open>GetBookChapters\<close> returns, page after page in the order of the pages, the chapters
  of the page whose file name or title contains \<open>cover\<close> in any letter case, in their
  order, followed by the other chapters of the page, in their order. The witness is
  the scenario of the specification: the pages \<open>[a, b(cover)]\<close> and \<open>[c(cover), d]\<close>
  give \<open>[b, a, c, d]\<close>.
\<close>

theorem chapters_cover_first_per_page:
  assumes "pagePath w (firstPageURL book) pages []"
    and "\<forall>page\<in>set pages. Results page \<noteq> []"
  shows "GetBookChapters w book
         = Some (Inr (concat (map (\<lambda>page. filter isCoverChapter (Results page)
                                          @ filter (\<lambda>chapter. \<not> isCoverChapter chapter) (Results page))
                                pages)))"
proof -
  have "GetBookChapters w book = chaptersLoop w (firstPageURL book) []"
    by (simp add: GetBookChapters_def firstPageURL_def)
  also have "\<dots> = chaptersLoop w [] ([] @ concat (map (\<lambda>page. coverFirst (Results page)) pages))"
    by (rule chaptersLoop_path [OF assms])
  also have "\<dots> = Some (Inr (concat (map (\<lambda>page. coverFirst (Results page)) pages)))"
    by (subst chaptersLoop.simps) simp
  finally show ?thesis by (simp add: coverFirst_def)
qed

theorem chapters_cover_first_per_page_witness:
  "pagePath (indexWorld pageOne pageTwo) (firstPageURL ''42'') [pageOne, pageTwo] []
   \<and> GetBookChapters (indexWorld pageOne pageTwo) ''42''
       = Some (Inr [mkChapter ''Cover'' ''b.html'', mkChapter ''A'' ''a.html'',
                    mkChapter ''C'' ''cover2.html'', mkChapter ''D'' ''d.html''])"
proof -
  have path: "pagePath (indexWorld pageOne pageTwo) (firstPageURL ''42'') [pageOne, pageTwo] []"
    by (simp add: indexWorld_def quietWorld_def firstPageURL_def safariBaseURL_def page2URL_def
        IsSuccess_def nextPageURL_def pageOne_def pageTwo_def)
  have full: "\<forall>page\<in>set [pageOne, pageTwo]. Results page \<noteq> []"
    by (simp add: pageOne_def pageTwo_def)
  from chapters_cover_first_per_page [OF path full] path show ?thesis
    by (simp add: pageOne_def pageTwo_def isCoverChapter_def mkChapter_def lowerByte_def)
qed

subsection \<open>C10: an empty page fails the call\<close>

text \<open>
  Claim C10. When the walk through the index reaches, after any number of pages that
  are not empty, a page whose \<open>results\<close> array is empty, \<open>GetBookChapters\<close> returns
  the error and no chapter list. In the witness the empty page is the second one.
\<close>

theorem chapters_empty_page_fails:
  assumes "pagePath w (firstPageURL book) pages url"
    and "\<forall>page\<in>set pages. Results page \<noteq> []"
    and "url \<noteq> []" and "http_Get w url = Some resp" and "IsSuccess resp"
    and "json_Chapters w (Body resp) = Some page" and "Results page = []"
  shows "GetBookChapters w book = Some (Inl ErrNoChapters)"
proof -
  have "GetBookChapters w book = chaptersLoop w (firstPageURL book) []"
    by (simp add: GetBookChapters_def firstPageURL_def)
  also have "\<dots> = chaptersLoop w url ([] @ concat (map (\<lambda>page. coverFirst (Results page)) pages))"
    by (rule chaptersLoop_path [OF assms(1,2)])
  also have "\<dots> = Some (Inl ErrNoChapters)"
    using chaptersLoop_step [OF assms(3-6)] assms(7) by simp
  finally show ?thesis .
qed

theorem chapters_empty_page_fails_witness:
  "pagePath (indexWorld pageOne emptyPage) (firstPageURL ''42'') [pageOne] page2URL
   \<and> Results emptyPage = []
   \<and> GetBookChapters (indexWorld pageOne emptyPage) ''42'' = Some (Inl ErrNoChapters)"
proof -
  have path: "pagePath (indexWorld pageOne emptyPage) (firstPageURL ''42'') [pageOne] page2URL"
    by (simp add: indexWorld_def quietWorld_def firstPageURL_def safariBaseURL_def page2URL_def
        IsSuccess_def nextPageURL_def pageOne_def)
  have full: "\<forall>page\<in>set [pageOne]. Results page \<noteq> []"
    by (simp add: pageOne_def)
  have url: "page2URL \<noteq> []"
    by (simp add: page2URL_def)
  have get: "http_Get (indexWorld pageOne emptyPage) page2URL = Some \<lparr>StatusCode = 200, Body = ''2''\<rparr>"
    by (simp add: indexWorld_def quietWorld_def firstPageURL_def safariBaseURL_def page2URL_def)
  have ok: "IsSuccess \<lparr>StatusCode = 200, Body = ''2''\<rparr>"
    by (simp add: IsSuccess_def)
  have js: "json_Chapters (indexWorld pageOne emptyPage) (Body \<lparr>StatusCode = 200, Body = ''2''\<rparr>)
              = Some emptyPage"
    by (simp add: indexWorld_def quietWorld_def)
  have empty: "Results emptyPage = []"
    by (simp add: emptyPage_def)
  from chapters_empty_page_fails [OF path full url get ok js empty] path empty show ?thesis
    by simp
qed

subsection \<open>C8: the name of the book directory\<close>

lemma strings_Split_nonempty: "strings_Split s sep \<noteq> []"
  by (induction s) (auto split: list.splits)

lemma hd_strings_Split: "hd (strings_Split s sep) = takeWhile (\<lambda>c. c \<noteq> sep) s"
  by (induction s) (auto split: list.splits simp: strings_Split_nonempty)

lemma strings_Index_le: "strings_Index s sub \<le> int (length s)"
  by (induction s) (auto simp: Let_def)

lemma EscapeDirname_empty: "EscapeDirname name = [] \<longleftrightarrow> name = []"
proof -
  have "take (nat (strings_Index name '':'')) name \<noteq> []" if "strings_Index name '':'' > 15"
    using that strings_Index_le [of name "'':''"] by auto
  then show ?thesis
    by (auto simp: EscapeDirname_def replacer_Replace_def Let_def)
qed

lemma mkdirAll_ok:
  "mkdirAll w ds fs = (fs', None) \<Longrightarrow> dirs fs' = dirs fs \<union> set ds \<and> files fs' = files fs"
  by (induction ds arbitrary: fs) (auto split: if_splits)

text \<open>
  Claim C8 says that the directory is named by the whole sanitized title and that the
  title is not truncated otherwise. \<open>createBookDirectory\<close> keeps only the part of
  the sanitized title before its first comma: the title \<open>Go, Second Edition\<close> of the
  book \<open>42\<close> gives the directory \<open>Go (42)\<close>, not \<open>Go, Second Edition (42)\<close>.
\<close>

theorem book_directory_comma_counterexample:
  "snd (createBookDirectory quietWorld sampleDownloader commaBook emptyFS)
       = Inr ''Books/Go (42)''
   \<and> filepath_Join [booksDir sampleDownloader,
         EscapeDirname (Title commaBook) @ '' ('' @ bookID sampleDownloader @ '')'']
       = ''Books/Go, Second Edition (42)''
   \<and> snd (createBookDirectory quietWorld sampleDownloader commaBook emptyFS)
       \<noteq> Inr (filepath_Join [booksDir sampleDownloader,
                 EscapeDirname (Title commaBook) @ '' ('' @ bookID sampleDownloader @ '')''])"
  by (simp add: createBookDirectory_def quietWorld_def sampleDownloader_def commaBook_def
      emptyFS_def dirName_def EscapeDirname_def replacer_Replace_def escapedChars_def
      filepath_Join_def filepath_Clean_def Let_def)

text \<open>
  Claim C8 as amended. The directory that a successful \<open>createBookDirectory\<close> makes
  and returns is, under the books directory, \<open>T (bookID)\<close>, where \<open>T\<close> is the part
  before the first comma of the sanitized title, or of the book identifier when the
  title is empty.
\<close>

theorem book_directory_name:
  assumes "createBookDirectory w d info fs = (fs', Inr bookPath)"
  shows "bookPath = filepath_Join [booksDir d,
                      takeWhile (\<lambda>c. c \<noteq> CHR '','')
                        (if Title info = [] then bookID d else EscapeDirname (Title info))
                      @ '' ('' @ bookID d @ '')'']
         \<and> bookPath \<in> dirs fs'"
proof -
  have name: "dirName d info =
      takeWhile (\<lambda>c. c \<noteq> CHR '','')
        (if Title info = [] then bookID d else EscapeDirname (Title info))
      @ '' ('' @ bookID d @ '')''"
    by (simp add: dirName_def Let_def hd_strings_Split EscapeDirname_empty)
  define bp where "bp = filepath_Join [booksDir d, dirName d info]"
  define ds where "ds = [bp, filepath_Join [bp, ''OEBPS''],
                         filepath_Join [bp, ''OEBPS'', ''Styles''],
                         filepath_Join [bp, ''OEBPS'', ''Images'']]"
  have "createBookDirectory w d info fs =
          (case mkdirAll w ds fs of
             (fs', Some err) \<Rightarrow> (fs', Inl err)
           | (fs', None) \<Rightarrow> (fs', Inr bp))"
    by (simp add: createBookDirectory_def Let_def bp_def ds_def)
  with assms have mk: "mkdirAll w ds fs = (fs', None)" and path: "bookPath = bp"
    by (auto split: prod.splits option.splits)
  from mkdirAll_ok [OF mk] have "bp \<in> dirs fs'"
    by (simp add: ds_def)
  with path show ?thesis
    by (simp add: bp_def name)
qed

theorem book_directory_name_witness:
  "\<exists>fs'. createBookDirectory quietWorld sampleDownloader commaBook emptyFS
            = (fs', Inr ''Books/Go (42)'')
         \<and> ''Books/Go (42)'' \<in> dirs fs'"
proof -
  obtain fs' where run: "createBookDirectory quietWorld sampleDownloader commaBook emptyFS
            = (fs', Inr ''Books/Go (42)'')"
    by (simp add: createBookDirectory_def quietWorld_def sampleDownloader_def commaBook_def
        emptyFS_def dirName_def EscapeDirname_def replacer_Replace_def escapedChars_def
        filepath_Join_def filepath_Clean_def Let_def)
  from book_directory_name [OF run] run show ?thesis
    by blast
qed

subsection \<open>The stylesheet registry of one parser\<close>

lemma linkSheets_registerAll:
  "linkSheets w base sheets p acc =
     (let (p', idxs) = registerAll p (map (ResolveURL w base) (filter (\<lambda>sheet. sheet \<noteq> []) sheets))
      in (p', acc @ concat (map linkTag idxs)))"
  by (induction sheets arbitrary: p acc) (auto simp: Let_def split: prod.splits)

lemma registerAll_bookURL: "bookURL (fst (registerAll p us)) = bookURL p"
proof (induction us arbitrary: p)
  case Nil
  show ?case by simp
next
  case (Cons u us)
  obtain p' idx where e: "ensureCSS p u = (p', idx)" by (cases "ensureCSS p u")
  with ensureCSS_bookURL [of p u] have "bookURL p' = bookURL p" by simp
  with Cons [of p'] e show ?case by (cases "registerAll p' us") simp
qed

lemma linkElements_registerAll:
  "linkElements w hrefs p acc =
     (let (p', idxs) = registerAll p (map (ResolveURL w (bookURL p)) hrefs)
      in (p', acc @ concat (map linkTag idxs)))"
proof (induction hrefs arbitrary: p acc)
  case Nil
  show ?case by simp
next
  case (Cons h hrefs)
  obtain p' idx where e: "ensureCSS p (ResolveURL w (bookURL p) h) = (p', idx)"
    by (cases "ensureCSS p (ResolveURL w (bookURL p) h)")
  with ensureCSS_bookURL [of p "ResolveURL w (bookURL p) h"] have "bookURL p' = bookURL p" by simp
  with Cons [of p' "acc @ linkTag idx"] e show ?case
    by (simp split: prod.splits)
qed

lemma registerAll_append:
  "registerAll p (us @ vs) =
     (let (p', is) = registerAll p us; (p'', js) = registerAll p' vs in (p'', is @ js))"
  by (induction us arbitrary: p) (auto simp: Let_def split: prod.splits)

lemma styleIndex_seen: "u \<in> set pre \<Longrightarrow> styleIndex (pre @ us) u = styleIndex pre u"
  by (simp add: styleIndex_def takeWhile_append1)

lemma takeWhile_until_new: "u \<notin> set pre \<Longrightarrow> takeWhile (\<lambda>v. v \<noteq> u) (pre @ u # us) = pre"
  by (induction pre) auto

lemma styleIndex_new:
  "u \<notin> set pre \<Longrightarrow> u \<noteq> [] \<Longrightarrow>
     styleIndex (pre @ u # us) u = length (remdups (filter (\<lambda>v. v \<noteq> []) pre))"
  by (simp add: styleIndex_def takeWhile_until_new)

lemma remdups_snoc_new: "u \<notin> set xs \<Longrightarrow> remdups (xs @ [u]) = remdups xs @ [u]"
  by (induction xs) auto

lemma ensureCSS_registryFor:
  assumes "registryFor p pre" and "ensureCSS p u = (p', idx)"
  shows "registryFor p' (pre @ [u]) \<and> idx = styleIndex (pre @ u # us) u"
proof (cases "u = []")
  case True
  with assms show ?thesis
    by (auto simp: ensureCSS_def registryFor_def styleIndex_def takeWhile_append1)
next
  case False
  show ?thesis
  proof (cases "u \<in> set pre")
    case True
    with assms False have "cssIndex p u = Some (styleIndex pre u)"
      by (simp add: registryFor_def)
    with assms False True show ?thesis
      using styleIndex_seen [of _ pre "[u]"] styleIndex_seen [of u pre "u # us"]
      by (auto simp: ensureCSS_def registryFor_def length_remdups_card_conv insert_absorb)
  next
    case new: False
    with assms False have none: "cssIndex p u = None"
      by (simp add: registryFor_def)
    with assms False have p': "p' = p\<lparr>cssIndex := (cssIndex p)(u \<mapsto> length (cssList p)),
                                       cssList := cssList p @ [u]\<rparr>"
      and idx: "idx = length (cssList p)"
      by (auto simp: ensureCSS_def Let_def)
    have len: "length (cssList p) = length (remdups (filter (\<lambda>v. v \<noteq> []) pre))"
      using assms by (simp add: registryFor_def)
    have "registryFor p' (pre @ [u])"
      unfolding registryFor_def
    proof (intro conjI allI impI)
      show "length (cssList p') = length (remdups (filter (\<lambda>v. v \<noteq> []) (pre @ [u])))"
        using new False len by (simp add: p' remdups_snoc_new)
    next
      fix v :: string
      assume "v \<noteq> []"
      show "cssIndex p' v = (if v \<in> set (pre @ [u]) then Some (styleIndex (pre @ [u]) v) else None)"
      proof (cases "v = u")
        case True
        with new False len show ?thesis
          using styleIndex_new [of u pre "[]"] by (simp add: p')
      next
        case False
        with assms(1) \<open>v \<noteq> []\<close> show ?thesis
          using styleIndex_seen [of v pre "[u]"] by (auto simp: p' registryFor_def)
      qed
    qed
    moreover have "idx = styleIndex (pre @ u # us) u"
      using new False len idx by (simp add: styleIndex_new)
    ultimately show ?thesis by simp
  qed
qed

lemma registerAll_indices:
  "registryFor p pre \<Longrightarrow> snd (registerAll p us) = map (styleIndex (pre @ us)) us"
proof (induction us arbitrary: p pre)
  case Nil
  show ?case by simp
next
  case (Cons u us)
  obtain p' idx where e: "ensureCSS p u = (p', idx)" by (cases "ensureCSS p u")
  from ensureCSS_registryFor [OF Cons.prems e, of us]
  have reg: "registryFor p' (pre @ [u])" and idx: "idx = styleIndex (pre @ u # us) u"
    by simp_all
  from Cons.IH [OF reg] have "snd (registerAll p' us) = map (styleIndex (pre @ u # us)) us"
    by simp
  with e idx show ?case
    by (cases "registerAll p' us") simp
qed

lemma NewParser_registryFor: "registryFor (NewParser url kindle) []"
  by (simp add: registryFor_def NewParser_def)

lemma ParseChapter_pageCSS:
  assumes run: "ParseChapter w p ch isFirst = (p', Inr (pageCSS, pageHTML))"
    and doc: "html_Document w (Content ch) = Some doc"
  shows "pageCSS = concat (map linkTag (snd (registerAll p (registeredURLs w (bookURL p) ch doc))))
                   @ concat (map (\<lambda>css. css @ [CHR 0x0A]) (styleCSS doc))"
proof -
  define A where "A = map (ResolveURL w (AssetBaseURL ch))
                        (filter (\<lambda>sheet. sheet \<noteq> []) (map URL (Stylesheets ch)))"
  define B where "B = map (ResolveURL w (AssetBaseURL ch))
                        (filter (\<lambda>sheet. sheet \<noteq> []) (SiteStyles ch))"
  define C where "C = map (ResolveURL w (bookURL p)) (linkHrefs doc)"
  obtain p1 i1 where r1: "registerAll p A = (p1, i1)" by (cases "registerAll p A")
  obtain p2 i2 where r2: "registerAll p1 B = (p2, i2)" by (cases "registerAll p1 B")
  obtain p3 i3 where r3: "registerAll p2 C = (p3, i3)" by (cases "registerAll p2 C")
  have b1: "bookURL p1 = bookURL p"
    using registerAll_bookURL [of p A] r1 by simp
  have b2: "bookURL p2 = bookURL p"
    using registerAll_bookURL [of p1 B] r2 b1 by simp
  have urls: "registeredURLs w (bookURL p) ch doc = (A @ B) @ C"
    by (simp add: registeredURLs_def A_def B_def C_def)
  have all: "snd (registerAll p ((A @ B) @ C)) = (i1 @ i2) @ i3"
    using r1 r2 r3 by (simp add: registerAll_append)
  have sheets: "(if Stylesheets ch \<noteq> [] \<or> SiteStyles ch \<noteq> [] then
                    (let (q, c) = linkSheets w (AssetBaseURL ch) (map URL (Stylesheets ch)) p []
                     in linkSheets w (AssetBaseURL ch) (SiteStyles ch) q c)
                  else (p, []))
                = (p2, concat (map linkTag (i1 @ i2)))"
  proof (cases "Stylesheets ch \<noteq> [] \<or> SiteStyles ch \<noteq> []")
    case True
    then show ?thesis
      using r1 r2 by (simp add: linkSheets_registerAll A_def [symmetric] B_def [symmetric])
  next
    case False
    then show ?thesis
      using r1 r2 by (simp add: A_def B_def)
  qed
  have elems: "linkElements w (linkHrefs doc) p2 (concat (map linkTag (i1 @ i2)))
                 = (p3, concat (map linkTag ((i1 @ i2) @ i3)))"
    using r3 by (simp add: linkElements_registerAll b2 C_def [symmetric])
  from run doc elems have "pageCSS = concat (map linkTag ((i1 @ i2) @ i3))
                       @ concat (map (\<lambda>css. css @ [CHR 0x0A]) (styleCSS doc))"
    unfolding ParseChapter_def sheets
    by (auto simp: Let_def split: option.splits)
  with urls all show ?thesis by simp
qed

lemma takeWhile_order:
  "u \<in> set us \<Longrightarrow> v \<in> set us \<Longrightarrow> u \<noteq> v \<Longrightarrow>
     (u \<in> set (takeWhile (\<lambda>x. x \<noteq> v) us)
        \<and> set (takeWhile (\<lambda>x. x \<noteq> u) us) \<subseteq> set (takeWhile (\<lambda>x. x \<noteq> v) us))
     \<or> (v \<in> set (takeWhile (\<lambda>x. x \<noteq> u) us)
        \<and> set (takeWhile (\<lambda>x. x \<noteq> v) us) \<subseteq> set (takeWhile (\<lambda>x. x \<noteq> u) us))"
  by (induction us) auto

lemma styleIndex_less:
  assumes "u \<noteq> []" and "v \<noteq> []" and "u \<in> set (takeWhile (\<lambda>x. x \<noteq> v) us)"
    and "set (takeWhile (\<lambda>x. x \<noteq> u) us) \<subseteq> set (takeWhile (\<lambda>x. x \<noteq> v) us)"
  shows "styleIndex us u < styleIndex us v"
proof -
  let ?A = "{x \<in> set (takeWhile (\<lambda>x. x \<noteq> u) us). x \<noteq> []}"
  let ?B = "{x \<in> set (takeWhile (\<lambda>x. x \<noteq> v) us). x \<noteq> []}"
  have "u \<notin> ?A" by (auto dest: set_takeWhileD)
  moreover have "u \<in> ?B" using assms by simp
  moreover have "?A \<subseteq> ?B" using assms(4) by auto
  ultimately have "?A \<subset> ?B" by blast
  then have "card ?A < card ?B"
    by (intro psubset_card_mono) simp_all
  with assms(1,2) show ?thesis
    by (simp add: styleIndex_def length_remdups_card_conv)
qed

lemma styleIndex_inj:
  assumes "u \<in> set us" and "v \<in> set us" and "u \<noteq> []" and "v \<noteq> []" and "u \<noteq> v"
  shows "styleIndex us u \<noteq> styleIndex us v"
  using takeWhile_order [OF assms(1,2,5)] styleIndex_less [of u v us] styleIndex_less [of v u us]
    assms(3,4)
  by fastforce

lemma ParseChapter_indices:
  assumes "ParseChapter w (NewParser book kindle) ch isFirst = (p', Inr (pageCSS, pageHTML))"
    and "html_Document w (Content ch) = Some doc"
  shows "pageCSS = concat (map (\<lambda>u. linkTag (styleIndex (registeredURLs w book ch doc) u))
                            (registeredURLs w book ch doc))
                   @ concat (map (\<lambda>css. css @ [CHR 0x0A]) (styleCSS doc))
         \<and> (\<forall>u \<in> set (registeredURLs w book ch doc).
              \<forall>v \<in> set (registeredURLs w book ch doc).
                u \<noteq> [] \<and> v \<noteq> [] \<and> u \<noteq> v \<longrightarrow>
                styleIndex (registeredURLs w book ch doc) u
                  \<noteq> styleIndex (registeredURLs w book ch doc) v)"
proof -
  have book: "bookURL (NewParser book kindle) = book"
    by (simp add: NewParser_def)
  have "snd (registerAll (NewParser book kindle) (registeredURLs w book ch doc))
          = map (styleIndex (registeredURLs w book ch doc)) (registeredURLs w book ch doc)"
    using registerAll_indices [OF NewParser_registryFor] by simp
  with ParseChapter_pageCSS [OF assms] book
  have "pageCSS = concat (map (\<lambda>u. linkTag (styleIndex (registeredURLs w book ch doc) u))
                            (registeredURLs w book ch doc))
                   @ concat (map (\<lambda>css. css @ [CHR 0x0A]) (styleCSS doc))"
    by (simp add: comp_def)
  with styleIndex_inj show ?thesis
    by blast
qed

subsection \<open>What the workers leave on the disk\<close>

text \<open>
  A download never replaces a file that exists, so a page, once written, stays until
  another chapter is written to the same file.
\<close>

lemma downloadChapter_error_fs:
  "snd (snd (downloadChapter w d oebps ch isFirst parser bookPath fs))
   = snd (snd (downloadChapter w d oebps ch isFirst parser bookPath fs'))"
  by (simp add: downloadChapter_def Let_def split: option.splits sum.splits prod.splits)

lemma downloadFile_keeps:
  "files fs q = Some c \<Longrightarrow> files (downloadFile w url path fs) q = Some c"
  by (auto simp: downloadFile_def FileExists_def WriteFile_def split: option.splits)

lemma downloadImages_keeps:
  "files fs q = Some c \<Longrightarrow> files (downloadImages w d ch imagesPath imgs fs) q = Some c"
  by (induction imgs arbitrary: fs) (auto simp: Let_def downloadFile_keeps)

lemma downloadAssets_keeps:
  "files fs q = Some c \<Longrightarrow> files (downloadAssets w d ch basePath fs) q = Some c"
  by (simp add: downloadAssets_def downloadImages_keeps)

lemma downloadChapter_keeps:
  assumes "downloadChapter w d (filepath_Join [bookPath, ''OEBPS'']) ch isFirst parser bookPath fs
             = (ch', fs', err)"
    and "files fs q = Some c" and "q \<noteq> outputPath bookPath ch"
  shows "files fs' q = Some c"
proof -
  have "files (downloadAssets w d ch2 bookPath (WriteFile fs (outputPath bookPath ch) page)) q
          = Some c" for ch2 page
    using assms(2,3) by (intro downloadAssets_keeps) (simp add: WriteFile_def)
  with assms(1,2) show ?thesis
    by (auto simp: downloadChapter_def outputPath_def Let_def
        split: option.splits if_splits sum.splits prod.splits)
qed

lemma downloadChapter_page:
  assumes "downloadChapter w d (filepath_Join [bookPath, ''OEBPS'']) ch isFirst parser bookPath fs
             = (ch', fs', None)"
  shows "\<exists>resp css page. http_Get w (Content ch) = Some resp
           \<and> snd (ParseChapter w parser (ch\<lparr>Content := Body resp\<rparr>) isFirst) = Inr (css, page)
           \<and> files fs' (outputPath bookPath ch) = Some page"
proof -
  have written: "files (downloadAssets w d ch2 bookPath (WriteFile fs (outputPath bookPath ch) page))
          (outputPath bookPath ch) = Some page" for ch2 page
    by (intro downloadAssets_keeps) (simp add: WriteFile_def)
  from assms show ?thesis
    by (cases "http_Get w (Content ch)")
      (auto simp: downloadChapter_def outputPath_def [symmetric] Let_def written
        split: if_splits sum.splits prod.splits)
qed


lemma ParseChapter_success:
  assumes "snd (ParseChapter w (NewParser book kindle) ch isFirst) = Inr (css, page)"
  shows "\<exists>doc xhtml. html_Document w (Content ch) = Some doc
           \<and> bookContent doc (linkReplace w) = Some xhtml
           \<and> page = baseHTMLTemplate
                      (concat (map (\<lambda>u. linkTag (styleIndex (registeredURLs w book ch doc) u))
                                 (registeredURLs w book ch doc))
                       @ concat (map (\<lambda>css. css @ [CHR 0x0A]) (styleCSS doc)))
                      (if kindle then baseStyleCSS else baseStyleCSS @ kindleCSS) xhtml"
proof -
  obtain p' where run: "ParseChapter w (NewParser book kindle) ch isFirst = (p', Inr (css, page))"
    using assms by (cases "ParseChapter w (NewParser book kindle) ch isFirst") simp
  then obtain doc where doc: "html_Document w (Content ch) = Some doc"
    by (cases "html_Document w (Content ch)") (auto simp: ParseChapter_def)
  from run doc obtain xhtml where content: "bookContent doc (linkReplace w) = Some xhtml"
    and page: "page = baseHTMLTemplate css (baseHTMLStyle p') xhtml"
    by (cases "bookContent doc (linkReplace w)")
      (auto simp: ParseChapter_def Let_def split: prod.splits)
  have style: "baseHTMLStyle p' = (if kindle then baseStyleCSS else baseStyleCSS @ kindleCSS)"
    using ParseChapter_style [of w "NewParser book kindle" ch isFirst] run
    by (simp add: NewParser_def)
  from ParseChapter_indices [OF run doc] have
    "css = concat (map (\<lambda>u. linkTag (styleIndex (registeredURLs w book ch doc) u))
                     (registeredURLs w book ch doc))
           @ concat (map (\<lambda>css. css @ [CHR 0x0A]) (styleCSS doc))"
    by (rule conjunct1)
  with doc content page style show ?thesis by simp
qed

lemma runWorkers_keeps:
  "distinct sched \<Longrightarrow> files fs q = Some c \<Longrightarrow>
   \<forall>j\<in>set sched. j < length chs \<longrightarrow> outputPath bookPath (chs ! j) \<noteq> q \<Longrightarrow>
     files (fst (snd (runWorkers w d bookPath sched (chs, fs, ferr)))) q = Some c"
proof (induction sched arbitrary: chs fs ferr)
  case Nil
  then show ?case by simp
next
  case (Cons j sched)
  show ?case
  proof (cases "j < length chs")
    case False
    with Cons show ?thesis by simp
  next
    case True
    let ?oebps = "filepath_Join [bookPath, ''OEBPS'']"
    let ?parser = "NewParser (''https://'' @ siteURL d) (dlKindleMode d)"
    obtain ch' fs' err where
      dl: "downloadChapter w d ?oebps (chs ! j) (j = 0) ?parser bookPath fs = (ch', fs', err)"
      by (cases "downloadChapter w d ?oebps (chs ! j) (j = 0) ?parser bookPath fs")
    from Cons.prems True have "q \<noteq> outputPath bookPath (chs ! j)" by auto
    with dl Cons.prems(2) have kept: "files fs' q = Some c"
      by (rule downloadChapter_keeps)
    have rest: "\<forall>k\<in>set sched. k < length (chs[j := ch']) \<longrightarrow>
                  outputPath bookPath (chs[j := ch'] ! k) \<noteq> q"
    proof (intro ballI impI)
      fix k
      assume k: "k \<in> set sched" and "k < length (chs[j := ch'])"
      with Cons.prems(1) have "k \<noteq> j" by auto
      with Cons.prems(3) k \<open>k < length (chs[j := ch'])\<close>
      show "outputPath bookPath (chs[j := ch'] ! k) \<noteq> q" by simp
    qed
    from Cons.prems(1) have dist: "distinct sched" by simp
    have "runWorkers w d bookPath (j # sched) (chs, fs, ferr)
            = runWorkers w d bookPath sched
                (chs[j := ch'], fs', (if err \<noteq> None \<and> ferr = None then err else ferr))"
      using True dl by (simp add: Let_def)
    with Cons.IH [OF dist kept rest] show ?thesis by simp
  qed
qed


lemma runWorkers_page:
  assumes "distinct sched" and "i \<in> set sched" and "i < length chs"
    and "\<forall>j\<in>set sched. j \<noteq> i \<longrightarrow> j < length chs \<longrightarrow>
           outputPath bookPath (chs ! j) \<noteq> outputPath bookPath (chs ! i)"
    and "workerError w d bookPath i (chs ! i) = None"
  shows "\<exists>resp css page. http_Get w (Content (chs ! i)) = Some resp
           \<and> snd (ParseChapter w (NewParser (''https://'' @ siteURL d) (dlKindleMode d))
                      ((chs ! i)\<lparr>Content := Body resp\<rparr>) (i = 0)) = Inr (css, page)
           \<and> files (fst (snd (runWorkers w d bookPath sched (chs, fs, ferr))))
                 (outputPath bookPath (chs ! i)) = Some page"
  using assms
proof (induction sched arbitrary: chs fs ferr)
  case Nil
  then show ?case by simp
next
  case (Cons j sched)
  let ?oebps = "filepath_Join [bookPath, ''OEBPS'']"
  let ?parser = "NewParser (''https://'' @ siteURL d) (dlKindleMode d)"
  from Cons.prems(1) have dist: "distinct sched" and j_new: "j \<notin> set sched" by simp_all
  show ?case
  proof (cases "j = i")
    case True
    obtain ch' fs' err where
      dl: "downloadChapter w d ?oebps (chs ! i) (i = 0) ?parser bookPath fs = (ch', fs', err)"
      by (cases "downloadChapter w d ?oebps (chs ! i) (i = 0) ?parser bookPath fs")
    have "err = None"
      using dl Cons.prems(5)
        downloadChapter_error_fs [of w d ?oebps "chs ! i" "i = 0" ?parser bookPath fs]
      by (simp add: workerError_def)
    with dl obtain resp css page where
      get: "http_Get w (Content (chs ! i)) = Some resp"
      and parse: "snd (ParseChapter w ?parser ((chs ! i)\<lparr>Content := Body resp\<rparr>) (i = 0))
                    = Inr (css, page)"
      and written: "files fs' (outputPath bookPath (chs ! i)) = Some page"
      using downloadChapter_page [of w d bookPath "chs ! i" "i = 0" ?parser fs ch' fs'] by auto
    have rest: "\<forall>k\<in>set sched. k < length (chs[i := ch']) \<longrightarrow>
                  outputPath bookPath (chs[i := ch'] ! k) \<noteq> outputPath bookPath (chs ! i)"
    proof (intro ballI impI)
      fix k
      assume k: "k \<in> set sched" and len: "k < length (chs[i := ch'])"
      with j_new True have "k \<noteq> i" by auto
      with Cons.prems(4) k len
      show "outputPath bookPath (chs[i := ch'] ! k) \<noteq> outputPath bookPath (chs ! i)" by simp
    qed
    have "runWorkers w d bookPath (j # sched) (chs, fs, ferr)
            = runWorkers w d bookPath sched
                (chs[i := ch'], fs', (if err \<noteq> None \<and> ferr = None then err else ferr))"
      using True Cons.prems(3) dl by (simp add: Let_def)
    with runWorkers_keeps [OF dist written rest] get parse show ?thesis
      by auto
  next
    case False
    with Cons.prems(2) have i_in: "i \<in> set sched" by simp
    show ?thesis
    proof (cases "j < length chs")
      case outside: False
      have "runWorkers w d bookPath (j # sched) (chs, fs, ferr)
              = runWorkers w d bookPath sched (chs, fs, ferr)"
        using outside by simp
      moreover have "\<exists>resp css page. http_Get w (Content (chs ! i)) = Some resp
           \<and> snd (ParseChapter w ?parser ((chs ! i)\<lparr>Content := Body resp\<rparr>) (i = 0))
                 = Inr (css, page)
           \<and> files (fst (snd (runWorkers w d bookPath sched (chs, fs, ferr))))
                 (outputPath bookPath (chs ! i)) = Some page"
        using Cons.prems by (intro Cons.IH [OF dist i_in]) auto
      ultimately show ?thesis by simp
    next
      case True
      obtain ch' fs' err where
        dl: "downloadChapter w d ?oebps (chs ! j) (j = 0) ?parser bookPath fs = (ch', fs', err)"
        by (cases "downloadChapter w d ?oebps (chs ! j) (j = 0) ?parser bookPath fs")
      let ?chs = "chs[j := ch']"
      have same: "?chs ! i = chs ! i" using False by simp
      have len: "i < length ?chs" using Cons.prems(3) by simp
      have rest: "\<forall>k\<in>set sched. k \<noteq> i \<longrightarrow> k < length ?chs \<longrightarrow>
                    outputPath bookPath (?chs ! k) \<noteq> outputPath bookPath (?chs ! i)"
      proof (intro ballI impI)
        fix k
        assume k: "k \<in> set sched" and "k \<noteq> i" and "k < length ?chs"
        with j_new have "k \<noteq> j" by auto
        with Cons.prems(4) k \<open>k \<noteq> i\<close> \<open>k < length ?chs\<close> same
        show "outputPath bookPath (?chs ! k) \<noteq> outputPath bookPath (?chs ! i)" by simp
      qed
      have err: "workerError w d bookPath i (?chs ! i) = None"
        using Cons.prems(5) same by simp
      have "runWorkers w d bookPath (j # sched) (chs, fs, ferr)
              = runWorkers w d bookPath sched
                  (?chs, fs', (if err \<noteq> None \<and> ferr = None then err else ferr))"
        using True dl by (simp add: Let_def)
      with Cons.IH [OF dist i_in len rest err, of fs'] same show ?thesis
        by simp
    qed
  qed
qed

subsection \<open>Two sample runs of downloadChapters\<close>

lemmas sample_defs = bookWorld_def quietWorld_def sampleDownloader_def emptyFS_def docOf_def
  noContentDoc_def bodyOf_def
  chapterA_def chapterB_def downloadChapters_def downloadChapter_def downloadAssets_def
  downloadFile_def resolveImageURL_def ParseChapter_def NewParser_def ensureCSS_def
  ResolveURL_def FilenameFromURL_def path_Base_def FileExists_def WriteFile_def IsSuccess_def
  strings_HasPrefix_def filepath_Join_def filepath_Clean_def strings_ReplaceAll.simps Let_def

lemma two_chapters_run:
  "downloadChapters bookWorld sampleDownloader ''Books/B (42)'' [chapterA, chapterB] [0, 1] emptyFS
   = ([chapterA\<lparr>Content := bodyOf ''one'', Filename := ''ch01.xhtml''\<rparr>,
       chapterB\<lparr>Content := bodyOf ''two'', Filename := ''ch02.xhtml''\<rparr>],
      \<lparr>dirs = {},
       files = [''Books/B (42)/OEBPS/ch01.xhtml'' \<mapsto> pageOf ''one'',
                ''Books/B (42)/OEBPS/Images/f.png'' \<mapsto> ''PNG'',
                ''Books/B (42)/OEBPS/ch02.xhtml'' \<mapsto> pageOf ''two'']\<rparr>,
      None)"
  by (simp add: sample_defs pageOf_def)

lemma duplicate_run:
  "downloadChapters bookWorld sampleDownloader ''Books/B (42)'' [chapterA, chapterDup] [0, 1] emptyFS
   = ([chapterA\<lparr>Content := bodyOf ''one'', Filename := ''ch01.xhtml''\<rparr>,
       chapterB\<lparr>Content := bodyOf ''two'', Filename := ''ch01.xhtml''\<rparr>],
      \<lparr>dirs = {},
       files = [''Books/B (42)/OEBPS/ch01.xhtml'' \<mapsto> pageOf ''two'',
                ''Books/B (42)/OEBPS/Images/f.png'' \<mapsto> ''PNG'']\<rparr>,
      None)"
  by (simp add: sample_defs pageOf_def chapterDup_def fun_upd_twist)

subsection \<open>C1: stylesheet indices\<close>

text \<open>
  Claim C1 says that one registry serves the whole book, so that different URLs of
  different chapters never share an index. \<open>downloadChapters\<close> makes a new parser,
  with an empty registry, for every chapter: the chapters \<open>One\<close> and \<open>Two\<close> name
  different stylesheets, and the page of each links \<open>Styles/Style00.css\<close>.
\<close>

theorem registry_per_chapter_counterexample:
  \<open>map URL (Stylesheets chapterA) = [''https://x.example/a.css'']
   \<and> map URL (Stylesheets chapterB) = [''https://x.example/b.css'']
   \<and> (let fs = fst (snd (downloadChapters bookWorld sampleDownloader ''Books/B (42)''
                              [chapterA, chapterB] [0, 1] emptyFS))
      in files fs ''Books/B (42)/OEBPS/ch01.xhtml''
           = Some (baseHTMLTemplate (linkTag 0) (baseStyleCSS @ kindleCSS)
                     (bodyOf ''one''))
         \<and> files fs ''Books/B (42)/OEBPS/ch02.xhtml''
           = Some (baseHTMLTemplate (linkTag 0) (baseStyleCSS @ kindleCSS)
                     (bodyOf ''two'')))
   \<and> linkTag 0 = ''<link href="Styles/Style00.css" rel="stylesheet" type="text/css" />'' @ [CHR 0x0A]\<close>
  unfolding two_chapters_run
  by (simp add: pageOf_def chapterA_def chapterB_def linkTag_def fmt_02d_def fmt_d.simps
      digit_char_def)

text \<open>
  Claim C1 as amended. \<open>downloadChapters\<close> transforms every chapter with a parser of
  its own and an empty registry, whatever the order of the workers. For a chapter
  whose worker ends without error and whose file no other chapter of the list is
  written to, the page on the disk after the run is the template filled with the
  \<open>link\<close> elements of the chapter's own registrations, in their order, with the
  indices \<open>styleIndex\<close>: a URL registered twice in the chapter has the same index
  both times, the k-th distinct non-empty URL of the chapter has the index k-1, and
  two different non-empty URLs of the chapter never share an index. What other
  chapters register has no part in it. In the witness the second chapter names the
  stylesheets A, B, A, C after a first chapter that names B: its page links the
  indices 0, 1, 0, 2.
\<close>

theorem registry_per_chapter:
  assumes "distinct sched" and "set sched = {..<length chapters}"
    and "i < length chapters"
    and "workerError w d bookPath i (chapters ! i) = None"
    and "\<forall>j<length chapters. j \<noteq> i \<longrightarrow>
           outputPath bookPath (chapters ! j) \<noteq> outputPath bookPath (chapters ! i)"
  shows "\<exists>resp doc xhtml.
           http_Get w (Content (chapters ! i)) = Some resp
           \<and> html_Document w (Body resp) = Some doc
           \<and> bookContent doc (linkReplace w) = Some xhtml
           \<and> files (fst (snd (downloadChapters w d bookPath chapters sched fs)))
                 (outputPath bookPath (chapters ! i))
               = Some (baseHTMLTemplate
                   (concat (map (\<lambda>u. linkTag (styleIndex
                                   (registeredURLs w (''https://'' @ siteURL d) (chapters ! i) doc) u))
                              (registeredURLs w (''https://'' @ siteURL d) (chapters ! i) doc))
                    @ concat (map (\<lambda>css. css @ [CHR 0x0A]) (styleCSS doc)))
                   (if dlKindleMode d then baseStyleCSS else baseStyleCSS @ kindleCSS) xhtml)
           \<and> (\<forall>u \<in> set (registeredURLs w (''https://'' @ siteURL d) (chapters ! i) doc).
                \<forall>v \<in> set (registeredURLs w (''https://'' @ siteURL d) (chapters ! i) doc).
                  u \<noteq> [] \<and> v \<noteq> [] \<and> u \<noteq> v \<longrightarrow>
                  styleIndex (registeredURLs w (''https://'' @ siteURL d) (chapters ! i) doc) u
                    \<noteq> styleIndex (registeredURLs w (''https://'' @ siteURL d) (chapters ! i) doc) v)"
proof -
  let ?book = "''https://'' @ siteURL d"
  have i_in: "i \<in> set sched" using assms(2,3) by simp
  have others: "\<forall>j\<in>set sched. j \<noteq> i \<longrightarrow> j < length chapters \<longrightarrow>
                  outputPath bookPath (chapters ! j) \<noteq> outputPath bookPath (chapters ! i)"
    using assms(5) by simp
  from runWorkers_page [OF assms(1) i_in assms(3) others assms(4), of fs None]
  obtain resp css page where
    get: "http_Get w (Content (chapters ! i)) = Some resp"
    and parse: "snd (ParseChapter w (NewParser ?book (dlKindleMode d))
                       ((chapters ! i)\<lparr>Content := Body resp\<rparr>) (i = 0)) = Inr (css, page)"
    and written: "files (fst (snd (downloadChapters w d bookPath chapters sched fs)))
                    (outputPath bookPath (chapters ! i)) = Some page"
    by (auto simp: downloadChapters_def)
  have urls: "registeredURLs w ?book ((chapters ! i)\<lparr>Content := Body resp\<rparr>) doc
                = registeredURLs w ?book (chapters ! i) doc" for doc
    by (simp add: registeredURLs_def)
  have "\<exists>doc xhtml. html_Document w (Body resp) = Some doc
          \<and> bookContent doc (linkReplace w) = Some xhtml
          \<and> page = baseHTMLTemplate
                 (concat (map (\<lambda>u. linkTag (styleIndex (registeredURLs w ?book (chapters ! i) doc) u))
                            (registeredURLs w ?book (chapters ! i) doc))
                  @ concat (map (\<lambda>css. css @ [CHR 0x0A]) (styleCSS doc)))
                 (if dlKindleMode d then baseStyleCSS else baseStyleCSS @ kindleCSS) xhtml"
    using ParseChapter_success [OF parse] unfolding urls by simp
  then obtain doc xhtml where
    doc: "html_Document w (Body resp) = Some doc"
    and content: "bookContent doc (linkReplace w) = Some xhtml"
    and page: "page = baseHTMLTemplate
                 (concat (map (\<lambda>u. linkTag (styleIndex (registeredURLs w ?book (chapters ! i) doc) u))
                            (registeredURLs w ?book (chapters ! i) doc))
                  @ concat (map (\<lambda>css. css @ [CHR 0x0A]) (styleCSS doc)))
                 (if dlKindleMode d then baseStyleCSS else baseStyleCSS @ kindleCSS) xhtml"
    by blast
  from get doc content written page styleIndex_inj show ?thesis
    by blast
qed


theorem registry_per_chapter_witness:
  "distinct [0, 1::nat] \<and> set [0, 1::nat] = {..<length [chapterB, chapterS4]}
   \<and> workerError bookWorld sampleDownloader ''Books/B (42)'' 1 chapterS4 = None
   \<and> outputPath ''Books/B (42)'' chapterB \<noteq> outputPath ''Books/B (42)'' chapterS4
   \<and> files (fst (snd (downloadChapters bookWorld sampleDownloader ''Books/B (42)''
                          [chapterB, chapterS4] [0, 1] emptyFS)))
         ''Books/B (42)/OEBPS/ch03.xhtml''
       = Some (baseHTMLTemplate (linkTag 0 @ linkTag 1 @ linkTag 0 @ linkTag 2)
                 (baseStyleCSS @ kindleCSS) (bodyOf ''three''))"
proof -
  let ?chs = "[chapterB, chapterS4]"
  have d: "distinct [0, 1::nat]" by simp
  have s: "set [0, 1::nat] = {..<length ?chs}" by auto
  have i: "(1::nat) < length ?chs" by simp
  have e: "workerError bookWorld sampleDownloader ''Books/B (42)'' 1 chapterS4 = None"
    by (simp add: workerError_def sample_defs chapterS4_def)
  have e': "workerError bookWorld sampleDownloader ''Books/B (42)'' 1 (?chs ! 1) = None"
    using e by simp
  have paths: "outputPath ''Books/B (42)'' chapterB = ''Books/B (42)/OEBPS/ch02.xhtml''"
    "outputPath ''Books/B (42)'' chapterS4 = ''Books/B (42)/OEBPS/ch03.xhtml''"
    by (simp_all add: outputPath_def chapterB_def chapterS4_def filepath_Join_def
        filepath_Clean_def strings_ReplaceAll.simps)
  have others: "\<forall>j<length ?chs. j \<noteq> 1 \<longrightarrow>
                  outputPath ''Books/B (42)'' (?chs ! j) \<noteq> outputPath ''Books/B (42)'' (?chs ! 1)"
    by (simp add: paths less_Suc_eq)
  have get: "http_Get bookWorld (Content chapterS4)
               = Some \<lparr>StatusCode = 200, Body = bodyOf ''three''\<rparr>"
    by (simp add: bookWorld_def quietWorld_def chapterS4_def)
  have doc: "html_Document bookWorld (bodyOf ''three'') = Some (docOf (bodyOf ''three''))"
    by (simp add: bookWorld_def quietWorld_def)
  have urls: "registeredURLs bookWorld (''https://'' @ siteURL sampleDownloader) chapterS4
                (docOf (bodyOf ''three''))
              = [''https://x.example/a.css'', ''https://x.example/b.css'',
                 ''https://x.example/a.css'', ''https://x.example/c.css'']"
    by (simp add: registeredURLs_def chapterS4_def docOf_def ResolveURL_def strings_HasPrefix_def)
  from registry_per_chapter [OF d s i e' others, of emptyFS]
  obtain resp doc' xhtml where
    "http_Get bookWorld (Content chapterS4) = Some resp"
    and "html_Document bookWorld (Body resp) = Some doc'"
    and "bookContent doc' (linkReplace bookWorld) = Some xhtml"
    and written: "files (fst (snd (downloadChapters bookWorld sampleDownloader ''Books/B (42)''
                          ?chs [0, 1] emptyFS)))
                    (outputPath ''Books/B (42)'' chapterS4)
      = Some (baseHTMLTemplate
          (concat (map (\<lambda>u. linkTag (styleIndex
                      (registeredURLs bookWorld (''https://'' @ siteURL sampleDownloader) chapterS4 doc') u))
                     (registeredURLs bookWorld (''https://'' @ siteURL sampleDownloader) chapterS4 doc'))
           @ concat (map (\<lambda>css. css @ [CHR 0x0A]) (styleCSS doc')))
          (if dlKindleMode sampleDownloader then baseStyleCSS else baseStyleCSS @ kindleCSS) xhtml)"
    by auto
  with get doc have resp: "doc' = docOf (bodyOf ''three'')" and "xhtml = bodyOf ''three''"
    by (auto simp: docOf_def)
  with written have "files (fst (snd (downloadChapters bookWorld sampleDownloader ''Books/B (42)''
                          ?chs [0, 1] emptyFS)))
                    ''Books/B (42)/OEBPS/ch03.xhtml''
       = Some (baseHTMLTemplate (linkTag 0 @ linkTag 1 @ linkTag 0 @ linkTag 2)
                 (baseStyleCSS @ kindleCSS) (bodyOf ''three''))"
    unfolding resp urls paths
    by (simp add: styleIndex_def docOf_def sampleDownloader_def numeral_2_eq_2)
  with d s e paths show ?thesis
    by simp
qed

subsection \<open>C2: the stylesheets are not downloaded\<close>

text \<open>
  Claim C2 asks that every registered stylesheet is fetched and written to
  \<open>OEBPS/Styles/StyleNN.css\<close>. In the run of the two sample chapters the server
  offers the stylesheet of chapter \<open>One\<close>, the page of the chapter links
  \<open>Styles/Style00.css\<close> and the image of the chapter is saved, but no file
  \<open>OEBPS/Styles/Style00.css\<close> exists afterwards: the pages and the image are the only
  files.
\<close>

theorem stylesheet_file_missing:
  \<open>http_Get bookWorld ''https://x.example/a.css'' = Some \<lparr>StatusCode = 200, Body = ''p{}''\<rparr>
   \<and> (let fs = fst (snd (downloadChapters bookWorld sampleDownloader ''Books/B (42)''
                              [chapterA, chapterB] [0, 1] emptyFS))
      in files fs ''Books/B (42)/OEBPS/ch01.xhtml''
           = Some (baseHTMLTemplate (linkTag 0) (baseStyleCSS @ kindleCSS)
                     (bodyOf ''one''))
         \<and> files fs ''Books/B (42)/OEBPS/Images/f.png'' = Some ''PNG''
         \<and> files fs ''Books/B (42)/OEBPS/Styles/Style00.css'' = None
         \<and> dom (files fs) = {''Books/B (42)/OEBPS/ch01.xhtml'', ''Books/B (42)/OEBPS/Images/f.png'',
                              ''Books/B (42)/OEBPS/ch02.xhtml''})\<close>
  unfolding two_chapters_run
  by (auto simp: pageOf_def bookWorld_def quietWorld_def)

subsection \<open>C7: chapters with the same file name\<close>

text \<open>
  Claim C7 says that two chapters with the same file name make the pipeline fail. In the
  run of \<open>chapterA\<close> and \<open>chapterDup\<close>, both named \<open>ch01.html\<close>, \<open>downloadChapters\<close>
  returns no error, and one chapter file is left on the disk.
\<close>

theorem duplicate_filename_counterexample:
  "Filename chapterA = Filename chapterDup
   \<and> snd (snd (downloadChapters bookWorld sampleDownloader ''Books/B (42)''
                  [chapterA, chapterDup] [0, 1] emptyFS)) = None
   \<and> dom (files (fst (snd (downloadChapters bookWorld sampleDownloader ''Books/B (42)''
                  [chapterA, chapterDup] [0, 1] emptyFS))))
       = {''Books/B (42)/OEBPS/ch01.xhtml'', ''Books/B (42)/OEBPS/Images/f.png''}"
  unfolding duplicate_run
  by (auto simp: chapterA_def chapterDup_def chapterB_def)

lemma runWorkers_error:
  "distinct sched \<Longrightarrow> length chs = length orig \<Longrightarrow>
   \<forall>i\<in>set sched. i < length chs \<and> chs ! i = orig ! i \<Longrightarrow>
     (snd (snd (runWorkers w d bookPath sched (chs, fs, ferr))) = None)
     = (ferr = None \<and> (\<forall>i\<in>set sched. workerError w d bookPath i (orig ! i) = None))"
proof (induction sched arbitrary: chs fs ferr)
  case Nil
  show ?case by simp
next
  case (Cons i sched)
  let ?oebps = "filepath_Join [bookPath, ''OEBPS'']"
  let ?parser = "NewParser (''https://'' @ siteURL d) (dlKindleMode d)"
  obtain ch' fs' err where
    dl: "downloadChapter w d ?oebps (chs ! i) (i = 0) ?parser bookPath fs = (ch', fs', err)"
    by (cases "downloadChapter w d ?oebps (chs ! i) (i = 0) ?parser bookPath fs")
  from Cons.prems have i: "i < length chs" and orig: "chs ! i = orig ! i"
    and rest: "\<forall>j\<in>set sched. j < length chs \<and> chs ! j = orig ! j"
    and notin: "i \<notin> set sched" and dist: "distinct sched"
    by simp_all
  have err: "err = workerError w d bookPath i (orig ! i)"
    using dl orig downloadChapter_error_fs [of w d ?oebps "chs ! i" "i = 0" ?parser bookPath fs]
    by (simp add: workerError_def)
  have rest': "\<forall>j\<in>set sched. j < length (chs[i := ch']) \<and> chs[i := ch'] ! j = orig ! j"
  proof
    fix j
    assume j: "j \<in> set sched"
    with notin have "i \<noteq> j" by auto
    with rest j show "j < length (chs[i := ch']) \<and> chs[i := ch'] ! j = orig ! j" by simp
  qed
  have len: "length (chs[i := ch']) = length orig"
    using Cons.prems(2) by simp
  have "runWorkers w d bookPath (i # sched) (chs, fs, ferr)
          = runWorkers w d bookPath sched
              (chs[i := ch'], fs', (if err \<noteq> None \<and> ferr = None then err else ferr))"
    using i dl by (simp add: Let_def)
  with Cons.IH [OF dist len rest'] err show ?case
    by auto
qed

text \<open>
  Claim C7 as amended. \<open>downloadChapters\<close> does not compare file names. Whatever the
  order in which the workers run, it returns an error exactly when the worker of some
  chapter ends with one (a failed request, a status outside 200 to 299, a parse error or
  a failed write); chapters with the same file name are no error.
\<close>

theorem no_duplicate_check:
  assumes "distinct sched" and "set sched = {..<length chapters}"
  shows "(snd (snd (downloadChapters w d bookPath chapters sched fs)) = None)
         = (\<forall>i<length chapters. workerError w d bookPath i (chapters ! i) = None)"
  using runWorkers_error [of sched chapters chapters w d bookPath fs None] assms
  by (auto simp: downloadChapters_def)

theorem no_duplicate_check_witness:
  "distinct [0, 1::nat] \<and> set [0, 1::nat] = {..<length [chapterA, chapterDup]}
   \<and> Filename chapterA = Filename chapterDup
   \<and> workerError bookWorld sampleDownloader ''Books/B (42)'' 0 chapterA = None
   \<and> workerError bookWorld sampleDownloader ''Books/B (42)'' 1 chapterDup = None
   \<and> snd (snd (downloadChapters bookWorld sampleDownloader ''Books/B (42)''
                  [chapterA, chapterDup] [0, 1] emptyFS)) = None"
proof -
  have d: "distinct [0, 1::nat]" by simp
  have s: "set [0, 1::nat] = {..<length [chapterA, chapterDup]}" by auto
  have e0: "workerError bookWorld sampleDownloader ''Books/B (42)'' 0 chapterA = None"
    by (simp add: workerError_def sample_defs)
  have e1: "workerError bookWorld sampleDownloader ''Books/B (42)'' 1 chapterDup = None"
    by (simp add: workerError_def sample_defs chapterDup_def)
  have all: "\<forall>i<length [chapterA, chapterDup].
               workerError bookWorld sampleDownloader ''Books/B (42)'' i ([chapterA, chapterDup] ! i)
                 = None"
    using e0 e1 by (simp add: less_Suc_eq)
  have f: "Filename chapterA = Filename chapterDup"
    by (simp add: chapterA_def chapterDup_def chapterB_def)
  from no_duplicate_check [OF d s, of bookWorld sampleDownloader "''Books/B (42)''" emptyFS] all
  have "snd (snd (downloadChapters bookWorld sampleDownloader ''Books/B (42)''
                  [chapterA, chapterDup] [0, 1] emptyFS)) = None"
    by simp
  with d s f e0 e1 show ?thesis by simp
qed

subsection \<open>C3: the link-rewrite rule\<close>

lemma strings_Split_append:
  "strings_Split (xs @ sep # ys) sep = strings_Split xs sep @ strings_Split ys sep"
proof (induction xs)
  case Nil
  show ?case by simp
next
  case (Cons c xs)
  then show ?case
    using strings_Split_nonempty [of xs sep] by (auto split: list.splits)
qed

lemma strings_Split_single: "sep \<notin> set xs \<Longrightarrow> strings_Split xs sep = [xs]"
  by (induction xs) auto

lemma lastSegment_slash: "lastSegment (xs @ ''/'') = lastSegment xs"
  using strings_Split_append [of xs "CHR ''/''" "[]"] by (simp add: lastSegment_def)

lemma lastSegment_plain:
  assumes "CHR ''/'' \<notin> set b"
  shows "lastSegment b = b"
proof -
  from assms have "strings_Split b (CHR ''/'') = [b]"
    by (rule strings_Split_single)
  then show ?thesis
    by (simp add: lastSegment_def)
qed

lemma lastSegment_after_slash:
  assumes "CHR ''/'' \<notin> set b" and "b \<noteq> []"
  shows "lastSegment (a @ CHR ''/'' # b) = b"
proof -
  from assms(1) have "strings_Split b (CHR ''/'') = [b]"
    by (rule strings_Split_single)
  then have "filter (\<lambda>seg. seg \<noteq> []) (strings_Split (a @ CHR ''/'' # b) (CHR ''/''))
               = filter (\<lambda>seg. seg \<noteq> []) (strings_Split a (CHR ''/'')) @ [b]"
    using assms(2) by (simp add: strings_Split_append)
  then show ?thesis
    by (simp add: lastSegment_def)
qed

lemma baseElem_lastSegment: "baseElem p = lastSegment p"
proof (induction p rule: rev_induct)
  case Nil
  show ?case by (simp add: baseElem_def lastSegment_def)
next
  case (snoc c xs)
  show ?case
  proof (cases "c = CHR ''/''")
    case True
    with snoc show ?thesis
      using lastSegment_slash [of xs] by (simp add: baseElem_def)
  next
    case False
    define b where "b = rev (takeWhile (\<lambda>c. c \<noteq> CHR ''/'') (rev (xs @ [c])))"
    define a where "a = rev (dropWhile (\<lambda>c. c \<noteq> CHR ''/'') (rev (xs @ [c])))"
    have split: "xs @ [c] = a @ b"
      unfolding a_def b_def
      by (metis rev_append rev_rev_ident takeWhile_dropWhile_id)
    have b: "CHR ''/'' \<notin> set b" "b \<noteq> []"
      using False by (auto simp: b_def dest: set_takeWhileD)
    have base: "baseElem (xs @ [c]) = b"
      using False by (simp add: baseElem_def b_def)
    show ?thesis
    proof (cases a rule: rev_cases)
      case Nil
      with split b base show ?thesis
        by (simp add: lastSegment_plain)
    next
      case (snoc a' d)
      have "rev a \<noteq> [] \<Longrightarrow> hd (rev a) = CHR ''/''"
        unfolding a_def rev_rev_ident
        using hd_dropWhile [of "\<lambda>c. c \<noteq> CHR ''/''" "rev (xs @ [c])"] by auto
      with snoc have "d = CHR ''/''" by simp
      with snoc split have "xs @ [c] = a' @ CHR ''/'' # b" by simp
      with b base show ?thesis
        using lastSegment_after_slash [of b a'] by simp
    qed
  qed
qed

lemma path_Base_lastSegment:
  "path_Base p = (if p = [] then ''.'' else if lastSegment p = [] then ''/'' else lastSegment p)"
proof -
  have "path_Base p = (if p = [] then ''.'' else if baseElem p = [] then ''/'' else baseElem p)"
    by (simp add: path_Base_def baseElem_def Let_def)
  then show ?thesis
    by (simp add: baseElem_lastSegment)
qed




lemma FilenameFromURL_dot:
  assumes "lastSegment (StripQueryFragment l) = ''.''"
    and "\<forall>u. url_Parse w l = Some u \<longrightarrow> path_Base (Path u) \<in> {[], ''.'', ''/''}"
  shows "FilenameFromURL w l = ''.''"
proof -
  have "lastSegment [] = []"
    by (simp add: lastSegment_def)
  with assms(1) have strip: "StripQueryFragment l \<noteq> []" and l: "l \<noteq> []"
    by (auto simp: StripQueryFragment_def)
  with assms(1) have "path_Base (StripQueryFragment l) = ''.''"
    by (simp add: path_Base_lastSegment)
  then have "trimSlashes (path_Base (StripQueryFragment l)) = ''.''"
    by (simp add: trimSlashes_def)
  with assms(2) l show ?thesis
    by (auto simp: FilenameFromURL_def Let_def split: option.splits)
qed




end
